theory Spec2Isabelle
  imports Complex_Main
begin

section \<open>Type tags and failures\<close>

text \<open>
  The enum \<open>TType\<close> of \<open>thrift.ts\<close>. Two pairs of names share a numeric code
  (\<open>BYTE = I08 = 3\<close>, \<open>STRING = UTF7 = 11\<close>), so each pair is one value; \<open>UTF8 = 16\<close>
  and \<open>UTF16 = 17\<close> are values of their own.
\<close>

datatype TType =
  STOP | VOID | BOOL | I08 | DOUBLE | I16 | I32 | I64 | STRING | STRUCT | MAP | SET | LIST
  | UTF8 | UTF16

abbreviation BYTE :: TType where "BYTE \<equiv> I08"
abbreviation UTF7 :: TType where "UTF7 \<equiv> STRING"

fun TType_code :: "TType \<Rightarrow> nat" where
  "TType_code STOP = 0"
| "TType_code VOID = 1"
| "TType_code BOOL = 2"
| "TType_code I08 = 3"
| "TType_code DOUBLE = 4"
| "TType_code I16 = 6"
| "TType_code I32 = 8"
| "TType_code I64 = 10"
| "TType_code STRING = 11"
| "TType_code STRUCT = 12"
| "TType_code MAP = 13"
| "TType_code SET = 14"
| "TType_code LIST = 15"
| "TType_code UTF8 = 16"
| "TType_code UTF16 = 17"

datatype TProtocolExceptionType =
  UNKNOWN | INVALID_DATA | NEGATIVE_SIZE | SIZE_LIMIT | BAD_VERSION | NOT_IMPLEMENTED

text \<open>
  What a call can throw: a \<open>TProtocolException\<close> with its kind and the constant part of
  its message (the source appends the offending value to some messages; that suffix is
  left out), or the \<open>TypeError\<close> the JavaScript runtime raises when a property of
  \<open>undefined\<close> is read or a value that is not a function is called.
\<close>

datatype error = TProtocolException TProtocolExceptionType string | TypeError

section \<open>JavaScript values\<close>

text \<open>
  A JavaScript number is \<open>NaN\<close>, an infinity or a finite value. The value of a
  finite number is kept as a rational. The code does no arithmetic on numbers: it
  stores them, tests them with \<open>isNaN\<close>, compares them with lengths and turns them
  into property names; where it reads a number from a string (\<open>parseInt\<close>, the
  conversion of \<open>!=\<close>) the result is rounded to a 64-bit double. The negative zero is
  not modelled.
\<close>

datatype number = NaN | Infinity | NegInfinity | Num rat

text \<open>
  The values \<open>JSON.parse\<close> produces, and \<open>undefined\<close>, which reading a missing
  property gives. A string is a list of code units below 256. An object is the list of
  its own properties in the order \<open>for ... in\<close> enumerates them.
\<close>

datatype jsval =
  JUndefined | JNull | JBool bool | JNum number | JStr string
  | JArr "jsval list" | JObj "(string \<times> jsval) list"

definition isNull :: "jsval \<Rightarrow> bool" where
  "isNull v = (v = JUndefined \<or> v = JNull)"

definition isNaN :: "number \<Rightarrow> bool" where
  "isNaN n = (n = NaN)"

subsection \<open>Decimal digits\<close>

definition digit_char :: "nat \<Rightarrow> char" where
  "digit_char d = ''0123456789'' ! d"

definition is_digit :: "char \<Rightarrow> bool" where
  "is_digit c = (c \<in> set ''0123456789'')"

text \<open>The digits of radix 16 and below, with their values.\<close>

definition hex_digits :: "(char \<times> nat) list" where
  "hex_digits =
     zip ''0123456789abcdefABCDEF''
       [0, 1, 2, 3, 4, 5, 6, 7, 8, 9, 10, 11, 12, 13, 14, 15, 10, 11, 12, 13, 14, 15]"

definition hex_val :: "char \<Rightarrow> nat option" where
  "hex_val c = map_of hex_digits c"

definition digit_val :: "char \<Rightarrow> nat" where
  "digit_val c = (case hex_val c of Some d \<Rightarrow> d | None \<Rightarrow> 0)"

definition is_radix_digit :: "nat \<Rightarrow> char \<Rightarrow> bool" where
  "is_radix_digit r c = (case hex_val c of Some d \<Rightarrow> d < r | None \<Rightarrow> False)"

text \<open>The value of a digit string in radix \<open>r\<close>, most significant digit first.\<close>

definition radix_val :: "nat \<Rightarrow> string \<Rightarrow> nat" where
  "radix_val r s = foldl (\<lambda>a c. r * a + digit_val c) 0 s"

text \<open>The decimal numeral of a natural number, without leading zeros.\<close>

fun show_nat :: "nat \<Rightarrow> string" where
  "show_nat n =
     (if n < 10 then [digit_char n] else show_nat (n div 10) @ [digit_char (n mod 10)])"

declare show_nat.simps [simp del]

subsection \<open>Numbers and strings\<close>

text \<open>
  A finite number is a 64-bit double. Its value is kept as a rational, and every
  conversion that produces a number from a string rounds to the nearest double, ties
  to the even mantissa (\<open>to_double\<close>): the mantissa has 53 bits, the smallest exponent
  is that of the subnormal numbers, and a result of \<open>2\<^sup>1\<^sup>0\<^sup>2\<^sup>4\<close> or more is an infinity.
  An integer of magnitude up to \<open>2\<^sup>5\<^sup>3\<close> is a double as it is. The negative zero is not
  modelled.
\<close>

fun negate :: "number \<Rightarrow> number" where
  "negate NaN = NaN"
| "negate Infinity = NegInfinity"
| "negate NegInfinity = Infinity"
| "negate (Num r) = Num (- r)"

definition pow :: "rat \<Rightarrow> int \<Rightarrow> rat" where
  "pow b e = (if 0 \<le> e then b ^ nat e else 1 / b ^ nat (- e))"

text \<open>
  The exponent \<open>e\<close> with \<open>b\<^sup>e \<le> r < b\<^sup>e\<^sup>+\<^sup>1\<close> for a positive \<open>r\<close>, searched over the
  range of the doubles.
\<close>

fun exp_up :: "nat \<Rightarrow> rat \<Rightarrow> rat \<Rightarrow> int \<Rightarrow> int" where
  "exp_up 0 b r e = e"
| "exp_up (Suc fuel) b r e = (if r < b then e else exp_up fuel b (r / b) (e + 1))"

fun exp_down :: "nat \<Rightarrow> rat \<Rightarrow> rat \<Rightarrow> int \<Rightarrow> int" where
  "exp_down 0 b r e = e"
| "exp_down (Suc fuel) b r e = (if 1 \<le> r then e else exp_down fuel b (r * b) (e - 1))"

definition floor_log :: "rat \<Rightarrow> rat \<Rightarrow> int" where
  "floor_log b r = (if 1 \<le> r then exp_up 1100 b r 0 else exp_down 1100 b r 0)"

definition round_half_even :: "rat \<Rightarrow> int" where
  "round_half_even q =
     (let f = \<lfloor>q\<rfloor>; d = q - of_int f
      in if d < 1 / 2 then f else if 1 / 2 < d then f + 1
         else if even f then f else f + 1)"

definition round_pos :: "rat \<Rightarrow> number" where
  "round_pos r =
     (let q = max (floor_log 2 r) (- 1022) - 52;
          v = of_int (round_half_even (r / pow 2 q)) * pow 2 q
      in if 2 ^ 1024 \<le> v then Infinity else Num v)"

definition to_double :: "rat \<Rightarrow> number" where
  "to_double r =
     (if r = of_int \<lfloor>r\<rfloor> \<and> \<bar>r\<bar> \<le> 2 ^ 53 then Num r
      else if r < 0 then negate (round_pos (- r))
      else round_pos r)"

text \<open>
  \<open>Number::toString\<close>. The digits are the shortest decimal \<open>s \<times> 10\<^sup>e\<close> that rounds to
  the number, of \<open>k\<close> digits, the closest one if there are two; \<open>n = e + k\<close> is the
  position of the decimal point; seventeen digits are enough for every double. A
  number with \<open>k \<le> n \<le> 21\<close> is printed as an integer, other numbers get a decimal
  point or an exponent. For an integer below \<open>2\<^sup>5\<^sup>3\<close> the shortest decimal is the
  integer itself.
\<close>

fun strip_zeros :: "nat \<Rightarrow> nat \<Rightarrow> nat \<times> nat" where
  "strip_zeros s z =
     (if s \<noteq> 0 \<and> s mod 10 = 0 then strip_zeros (s div 10) (Suc z) else (s, z))"

declare strip_zeros.simps [simp del]

definition digits_for :: "rat \<Rightarrow> nat \<Rightarrow> (nat \<times> int) option" where
  "digits_for r k =
     (let e = floor_log 10 r + 1 - int k;
          lo = \<lfloor>r / pow 10 e\<rfloor>;
          below = r - of_int lo * pow 10 e;
          above = of_int (lo + 1) * pow 10 e - r;
          lo_ok = (to_double (of_int lo * pow 10 e) = Num r);
          hi_ok = (to_double (of_int (lo + 1) * pow 10 e) = Num r)
      in if lo_ok \<and> (\<not> hi_ok \<or> below < above \<or> (below = above \<and> even lo))
         then Some (nat lo, e)
         else if hi_ok then Some (nat (lo + 1), e) else None)"

fun shortest_digits :: "nat \<Rightarrow> nat \<Rightarrow> rat \<Rightarrow> nat \<times> int" where
  "shortest_digits 0 k r = (nat \<lfloor>r / pow 10 (floor_log 10 r + 1 - int k)\<rfloor>,
                            floor_log 10 r + 1 - int k)"
| "shortest_digits (Suc fuel) k r =
     (case digits_for r k of Some p \<Rightarrow> p | None \<Rightarrow> shortest_digits fuel (Suc k) r)"

definition pos_num_string :: "rat \<Rightarrow> string" where
  "pos_num_string r =
     (if r = of_int \<lfloor>r\<rfloor> \<and> r < 2 ^ 53 then show_nat (nat \<lfloor>r\<rfloor>)
      else
        (let (s0, e) = shortest_digits 17 1 r;
             (s, z) = strip_zeros s0 0;
             digits = show_nat s;
             k = int (length digits);
             n = e + int z + k
         in if k \<le> n \<and> n \<le> 21 then digits @ replicate (nat (n - k)) CHR ''0''
            else if 0 < n \<and> n \<le> 21 then take (nat n) digits @ ''.'' @ drop (nat n) digits
            else if - 6 < n \<and> n \<le> 0 then ''0.'' @ replicate (nat (- n)) CHR ''0'' @ digits
            else (if k = 1 then digits else take 1 digits @ ''.'' @ drop 1 digits)
                 @ ''e'' @ (if 0 < n - 1 then ''+'' else ''-'') @ show_nat (nat \<bar>n - 1\<bar>)))"

fun ToString_num :: "number \<Rightarrow> string" where
  "ToString_num NaN = ''NaN''"
| "ToString_num Infinity = ''Infinity''"
| "ToString_num NegInfinity = ''-Infinity''"
| "ToString_num (Num r) =
     (if r = 0 then ''0'' else if r < 0 then ''-'' @ pos_num_string (- r)
      else pos_num_string r)"

fun join_comma :: "string list \<Rightarrow> string" where
  "join_comma [] = []"
| "join_comma [x] = x"
| "join_comma (x # y # ys) = x @ '','' @ join_comma (y # ys)"

text \<open>
  \<open>ToString\<close> of a value, as used when a value becomes a property name: an array is
  the comma-separated list of its elements (\<open>null\<close> and \<open>undefined\<close> as empty strings),
  an object is the constant \<open>[object Object]\<close>.
\<close>

fun js_ToString :: "jsval \<Rightarrow> string" where
  "js_ToString JUndefined = ''undefined''"
| "js_ToString JNull = ''null''"
| "js_ToString (JBool b) = (if b then ''true'' else ''false'')"
| "js_ToString (JNum n) = ToString_num n"
| "js_ToString (JStr s) = s"
| "js_ToString (JArr xs) =
     join_comma (map (\<lambda>x. if isNull x then [] else js_ToString x) xs)"
| "js_ToString (JObj kvs) = ''[object Object]''"

definition is_space :: "char \<Rightarrow> bool" where
  "is_space c =
     (c \<in> set [CHR 0x09, CHR 0x0A, CHR 0x0B, CHR 0x0C, CHR 0x0D, CHR 0x20, CHR 0xA0])"

definition trim :: "string \<Rightarrow> string" where
  "trim s = rev (dropWhile is_space (rev (dropWhile is_space s)))"

text \<open>The exponent part of a decimal literal; the empty rest stands for exponent 0.\<close>

definition parse_exponent :: "string \<Rightarrow> int option" where
  "parse_exponent s =
     (case s of
        [] \<Rightarrow> Some 0
      | c # t \<Rightarrow>
          if c = CHR ''e'' \<or> c = CHR ''E'' then
            (let neg = (t \<noteq> [] \<and> hd t = CHR ''-'');
                 ds = (if t \<noteq> [] \<and> (hd t = CHR ''-'' \<or> hd t = CHR ''+'') then tl t else t)
             in if ds \<noteq> [] \<and> list_all is_digit ds
                then Some (if neg then - int (radix_val 10 ds) else int (radix_val 10 ds))
                else None)
          else None)"

definition unsigned_decimal :: "string \<Rightarrow> number" where
  "unsigned_decimal s =
     (if s = ''Infinity'' then Infinity
      else
        (let ip = takeWhile is_digit s;
             r1 = dropWhile is_digit s;
             has_dot = (r1 \<noteq> [] \<and> hd r1 = CHR ''.'');
             fp = (if has_dot then takeWhile is_digit (tl r1) else []);
             r2 = (if has_dot then dropWhile is_digit (tl r1) else r1)
         in if ip = [] \<and> fp = [] then NaN
            else case parse_exponent r2 of
                   None \<Rightarrow> NaN
                 | Some ex \<Rightarrow>
                     to_double
                       ((of_nat (radix_val 10 ip) + of_nat (radix_val 10 fp) / 10 ^ length fp)
                        * pow 10 ex)))"

definition prefixed_literal :: "string \<Rightarrow> string \<Rightarrow> bool" where
  "prefixed_literal marks s = (2 < length s \<and> hd s = CHR ''0'' \<and> s ! 1 \<in> set marks)"

definition radix_literal :: "nat \<Rightarrow> string \<Rightarrow> number" where
  "radix_literal r ds =
     (if list_all (is_radix_digit r) ds then to_double (of_nat (radix_val r ds)) else NaN)"

text \<open>
  \<open>ToNumber\<close> of a string: surrounding white space is dropped, the empty string is 0,
  and the value of a literal is rounded to a double.
\<close>

definition StringToNumber :: "string \<Rightarrow> number" where
  "StringToNumber str =
     (let s = trim str
      in if s = [] then Num 0
         else if prefixed_literal ''xX'' s then radix_literal 16 (drop 2 s)
         else if prefixed_literal ''oO'' s then radix_literal 8 (drop 2 s)
         else if prefixed_literal ''bB'' s then radix_literal 2 (drop 2 s)
         else if hd s = CHR ''-'' then negate (unsigned_decimal (tl s))
         else if hd s = CHR ''+'' then unsigned_decimal (tl s)
         else unsigned_decimal s)"

text \<open>\<open>parseInt\<close> with no radix argument; the value of the digits is rounded to a double.\<close>

definition parseInt :: "string \<Rightarrow> number" where
  "parseInt str =
     (let s = dropWhile is_space str;
          neg = (s \<noteq> [] \<and> hd s = CHR ''-'');
          s1 = (if s \<noteq> [] \<and> (hd s = CHR ''-'' \<or> hd s = CHR ''+'') then tl s else s);
          hex = (2 \<le> length s1 \<and> hd s1 = CHR ''0'' \<and> s1 ! 1 \<in> set ''xX'');
          R = (if hex then 16 else 10);
          z = takeWhile (is_radix_digit R) (if hex then drop 2 s1 else s1)
      in if z = [] then NaN
         else to_double (if neg then - of_nat (radix_val R z) else of_nat (radix_val R z)))"

subsection \<open>Truthiness and comparison\<close>

fun ToBoolean :: "jsval \<Rightarrow> bool" where
  "ToBoolean JUndefined = False"
| "ToBoolean JNull = False"
| "ToBoolean (JBool b) = b"
| "ToBoolean (JNum n) = (n \<noteq> NaN \<and> n \<noteq> Num 0)"
| "ToBoolean (JStr s) = (s \<noteq> [])"
| "ToBoolean (JArr xs) = True"
| "ToBoolean (JObj kvs) = True"

text \<open>\<open>!v\<close>.\<close>

definition falsy :: "jsval \<Rightarrow> bool" where
  "falsy v = (\<not> ToBoolean v)"

fun js_ToNumber :: "jsval \<Rightarrow> number" where
  "js_ToNumber JUndefined = NaN"
| "js_ToNumber JNull = Num 0"
| "js_ToNumber (JBool b) = Num (if b then 1 else 0)"
| "js_ToNumber (JNum n) = n"
| "js_ToNumber (JStr s) = StringToNumber s"
| "js_ToNumber (JArr xs) = StringToNumber (js_ToString (JArr xs))"
| "js_ToNumber (JObj kvs) = StringToNumber (js_ToString (JObj kvs))"

text \<open>
  \<open>v != n\<close> for a number \<open>n\<close>: \<open>null\<close> and \<open>undefined\<close> equal no number, every other
  value is converted to a number first, and \<open>NaN\<close> equals nothing.
\<close>

definition loose_neq :: "jsval \<Rightarrow> number \<Rightarrow> bool" where
  "loose_neq v n = (isNull v \<or> js_ToNumber v = NaN \<or> js_ToNumber v \<noteq> n)"

fun num_lt :: "number \<Rightarrow> number \<Rightarrow> bool" where
  "num_lt (Num a) (Num b) = (a < b)"
| "num_lt (Num a) Infinity = True"
| "num_lt NegInfinity (Num b) = True"
| "num_lt NegInfinity Infinity = True"
| "num_lt _ _ = False"

text \<open>\<open>v < n\<close> for a number \<open>n\<close>.\<close>

definition js_lt :: "jsval \<Rightarrow> number \<Rightarrow> bool" where
  "js_lt v n = num_lt (js_ToNumber v) n"

subsection \<open>Properties\<close>

text \<open>An array index: the canonical decimal numeral of a number below \<open>2\<^sup>3\<^sup>2 - 1\<close>.\<close>

definition index_of :: "string \<Rightarrow> nat option" where
  "index_of s =
     (if s \<noteq> [] \<and> list_all is_digit s \<and> (s = ''0'' \<or> hd s \<noteq> CHR ''0'')
         \<and> int (radix_val 10 s) < 4294967295
      then Some (radix_val 10 s) else None)"

text \<open>
  \<open>v[k]\<close> for a value that is neither \<open>null\<close> nor \<open>undefined\<close> (every caller has tested
  that the value is truthy before it reads a property).
\<close>

fun js_get :: "jsval \<Rightarrow> string \<Rightarrow> jsval" where
  "js_get (JObj kvs) k = (case map_of kvs k of Some v \<Rightarrow> v | None \<Rightarrow> JUndefined)"
| "js_get (JArr xs) k =
     (if k = ''length'' then JNum (Num (of_nat (length xs)))
      else case index_of k of
             Some i \<Rightarrow> if i < length xs then xs ! i else JUndefined
           | None \<Rightarrow> JUndefined)"
| "js_get (JStr s) k =
     (if k = ''length'' then JNum (Num (of_nat (length s)))
      else case index_of k of
             Some i \<Rightarrow> if i < length s then JStr [s ! i] else JUndefined
           | None \<Rightarrow> JUndefined)"
| "js_get v k = JUndefined"

text \<open>
  The own enumerable properties a \<open>for ... in\<close> loop visits, each with its value: the
  properties of an object, the indices of an array or of a string, nothing otherwise.
\<close>

fun for_in :: "jsval \<Rightarrow> (string \<times> jsval) list" where
  "for_in (JObj kvs) = kvs"
| "for_in (JArr xs) = zip (map show_nat [0..<length xs]) xs"
| "for_in (JStr s) = zip (map show_nat [0..<length s]) (map (\<lambda>c. JStr [c]) s)"
| "for_in v = []"

text \<open>
  Storing the own property \<open>k\<close> of an object. An existing property keeps its place. A
  new array index goes before the first property that is no array index or is a larger
  one; any other new name goes last.
\<close>

definition comes_before :: "string \<Rightarrow> string \<Rightarrow> bool" where
  "comes_before k k' =
     (case index_of k of
        None \<Rightarrow> False
      | Some i \<Rightarrow> (case index_of k' of None \<Rightarrow> True | Some j \<Rightarrow> i < j))"

fun obj_insert :: "string \<Rightarrow> 'a \<Rightarrow> (string \<times> 'a) list \<Rightarrow> (string \<times> 'a) list" where
  "obj_insert k v [] = [(k, v)]"
| "obj_insert k v (p # ps) =
     (if comes_before k (fst p) then (k, v) # p # ps else p # obj_insert k v ps)"

definition obj_set :: "string \<Rightarrow> 'a \<Rightarrow> (string \<times> 'a) list \<Rightarrow> (string \<times> 'a) list" where
  "obj_set k v ps =
     (if k \<in> set (map fst ps) then map (\<lambda>p. if fst p = k then (k, v) else p) ps
      else obj_insert k v ps)"

text \<open>
  The assignment \<open>obj[k] = v\<close> on an object created as \<open>{}\<close>. The name \<open>__proto__\<close>
  is inherited as a setter, so assigning to it creates no own property (the setter
  changes the prototype when the value is an object or \<open>null\<close>; prototypes are not
  modelled).
\<close>

definition set_property :: "string \<Rightarrow> 'a \<Rightarrow> (string \<times> 'a) list \<Rightarrow> (string \<times> 'a) list" where
  "set_property k v ps = (if k = ''__proto__'' then ps else obj_set k v ps)"

text \<open>\<open>xs.shift()\<close>: the first element (\<open>undefined\<close> for an empty array) and the rest.\<close>

fun shift :: "jsval list \<Rightarrow> jsval \<times> jsval list" where
  "shift [] = (JUndefined, [])"
| "shift (x # xs) = (x, xs)"

subsection \<open>Loops that stop at the first exception\<close>

fun mapM :: "('a \<Rightarrow> error + 'b) \<Rightarrow> 'a list \<Rightarrow> error + 'b list" where
  "mapM f [] = Inr []"
| "mapM f (x # xs) =
     (case f x of
        Inl e \<Rightarrow> Inl e
      | Inr y \<Rightarrow> (case mapM f xs of Inl e \<Rightarrow> Inl e | Inr ys \<Rightarrow> Inr (y # ys)))"

fun foldM :: "('s \<Rightarrow> 'a \<Rightarrow> error + 's) \<Rightarrow> 's \<Rightarrow> 'a list \<Rightarrow> error + 's" where
  "foldM f s [] = Inr s"
| "foldM f s (x # xs) = (case f s x of Inl e \<Rightarrow> Inl e | Inr s' \<Rightarrow> foldM f s' xs)"

lemma mapM_cong [fundef_cong]:
  "xs = ys \<Longrightarrow> (\<And>x. x \<in> set ys \<Longrightarrow> f x = g x) \<Longrightarrow> mapM f xs = mapM g ys"
  by (induction ys arbitrary: xs) (auto split: sum.splits)

lemma foldM_cong [fundef_cong]:
  "xs = ys \<Longrightarrow> s = t \<Longrightarrow> (\<And>a x. x \<in> set ys \<Longrightarrow> f a x = g a x) \<Longrightarrow> foldM f s xs = foldM g t ys"
  by (induction ys arbitrary: xs s t) (auto split: sum.splits)

section \<open>Tagged values\<close>

text \<open>
  The classes that implement the interface \<open>TValue\<close>. \<open>TBase\<close> holds its tag and an
  optional payload of type \<open>boolean | number | string\<close>; nothing ties the payload's
  type to the tag, and the tag may be any \<open>TType\<close>. The tag of the four containers is
  fixed by their class. \<open>TStruct\<close> holds the object \<open>fields\<close>, whose property names
  are the field ids. \<open>Absent\<close> stands for \<open>null\<close> or \<open>undefined\<close> where a \<open>TValue\<close>
  is expected.
\<close>

datatype prim = PBool bool | PNum number | PStr string

datatype 'v TField = TField (fieldType: TType) (fvalue: 'v)

datatype 'v TMapEntry = TMapEntry (key: 'v) (val: 'v)

datatype TValue =
  Absent
  | TBase TType "prim option"
  | TList TType "TValue list"
  | TMap TType TType "TValue TMapEntry list"
  | TSet TType "TValue list"
  | TStruct "(string \<times> TValue TField) list"

subsection \<open>The JSON protocol\<close>

text \<open>
  \<open>typeString\<close> and \<open>typeOfString\<close> are the two switches of \<open>TJSONProtocol\<close>.
  \<open>typeOfString\<close> is called with whatever the input holds, and \<open>switch\<close> compares
  with \<open>===\<close>, so only a string can match.
\<close>

definition unsupported_type :: error where
  "unsupported_type = TProtocolException INVALID_DATA ''unsupported type''"

fun typeString :: "TType \<Rightarrow> error + string" where
  "typeString BOOL = Inr ''tf''"
| "typeString I08 = Inr ''i8''"
| "typeString I16 = Inr ''i16''"
| "typeString I32 = Inr ''i32''"
| "typeString I64 = Inr ''i64''"
| "typeString DOUBLE = Inr ''dbl''"
| "typeString STRING = Inr ''str''"
| "typeString LIST = Inr ''lst''"
| "typeString MAP = Inr ''map''"
| "typeString SET = Inr ''set''"
| "typeString STRUCT = Inr ''rec''"
| "typeString t = Inl unsupported_type"

definition typeOfString :: "jsval \<Rightarrow> error + TType" where
  "typeOfString type =
     (if type = JStr ''tf'' then Inr BOOL
      else if type = JStr ''i8'' then Inr I08
      else if type = JStr ''i16'' then Inr I16
      else if type = JStr ''i32'' then Inr I32
      else if type = JStr ''i64'' then Inr I64
      else if type = JStr ''str'' then Inr STRING
      else if type = JStr ''dbl'' then Inr DOUBLE
      else if type = JStr ''lst'' then Inr LIST
      else if type = JStr ''map'' then Inr MAP
      else if type = JStr ''set'' then Inr SET
      else if type = JStr ''rec'' then Inr STRUCT
      else Inl unsupported_type)"

text \<open>
  \<open>serializeValue\<close> switches on the tag the value reports. A \<open>TBase\<close> that reports a
  container tag is treated as that container, whose fields it lacks: its \<open>itemType\<close>
  is \<open>undefined\<close>, which \<open>typeString\<close> refuses; iterating its missing \<open>items\<close> with
  \<open>for ... of\<close> is a \<open>TypeError\<close>; enumerating its missing \<open>fields\<close> with
  \<open>for ... in\<close> visits nothing. The map case fills the entries object before it
  converts the two tags.
\<close>

function serializeValue :: "TValue \<Rightarrow> error + jsval" where
  "serializeValue Absent = Inr JNull"
| "serializeValue (TBase valueType value) =
     (if valueType = BOOL then
        (case value of
           None \<Rightarrow> Inr JNull
         | Some (PBool data) \<Rightarrow> Inr (JNum (Num (if data then 1 else 0)))
         | Some _ \<Rightarrow> Inl (TProtocolException INVALID_DATA ''boolean expected''))
      else if valueType \<in> {BYTE, I08, I16, I32, I64, DOUBLE} then
        (case value of
           None \<Rightarrow> Inr JNull
         | Some (PNum data) \<Rightarrow>
             if isNaN data then Inl (TProtocolException INVALID_DATA ''number is NaN'')
             else Inr (JNum data)
         | Some _ \<Rightarrow> Inl (TProtocolException INVALID_DATA ''number expected''))
      else if valueType \<in> {UTF7, UTF8, UTF16, STRING} then
        (case value of
           None \<Rightarrow> Inr JNull
         | Some (PStr data) \<Rightarrow> Inr (JStr data)
         | Some _ \<Rightarrow> Inl (TProtocolException INVALID_DATA ''string expected''))
      else if valueType = LIST \<or> valueType = SET then Inl unsupported_type
      else if valueType = MAP then Inl TypeError
      else if valueType = STRUCT then Inr (JObj [])
      else Inl (TProtocolException INVALID_DATA ''unsupported value type''))"
| "serializeValue (TList itemType items) =
     (case typeString itemType of
        Inl e \<Rightarrow> Inl e
      | Inr ts \<Rightarrow>
          (case mapM serializeValue items of
             Inl e \<Rightarrow> Inl e
           | Inr data \<Rightarrow> Inr (JArr (JStr ts # JNum (Num (of_nat (length items))) # data))))"
| "serializeValue (TMap keyType itemType items) =
     (case foldM (\<lambda>data2 item.
               case serializeValue (key item) of
                 Inl e \<Rightarrow> Inl e
               | Inr k \<Rightarrow>
                   (case serializeValue (val item) of
                      Inl e \<Rightarrow> Inl e
                    | Inr v \<Rightarrow> Inr (set_property (js_ToString k) v data2)))
             [] items of
        Inl e \<Rightarrow> Inl e
      | Inr data2 \<Rightarrow>
          (case typeString keyType of
             Inl e \<Rightarrow> Inl e
           | Inr ks \<Rightarrow>
               (case typeString itemType of
                  Inl e \<Rightarrow> Inl e
                | Inr vs \<Rightarrow>
                    Inr (JArr [JStr ks, JStr vs, JNum (Num (of_nat (length items))),
                               JObj data2]))))"
| "serializeValue (TSet itemType items) =
     (case typeString itemType of
        Inl e \<Rightarrow> Inl e
      | Inr ts \<Rightarrow>
          (case mapM serializeValue items of
             Inl e \<Rightarrow> Inl e
           | Inr data \<Rightarrow> Inr (JArr (JStr ts # JNum (Num (of_nat (length items))) # data))))"
| "serializeValue (TStruct fields) =
     (case foldM (\<lambda>data (id', field).
               case typeString (fieldType field) of
                 Inl e \<Rightarrow> Inl e
               | Inr ts \<Rightarrow>
                   (case serializeValue (fvalue field) of
                      Inl e \<Rightarrow> Inl e
                    | Inr v \<Rightarrow> Inr (set_property id' (JObj (set_property ts v [])) data)))
             [] fields of
        Inl e \<Rightarrow> Inl e
      | Inr data \<Rightarrow> Inr (JObj data))"
  by pat_completeness auto

lemma size_key_le: "size (key e) < size_TMapEntry size e"
  by (cases e) simp

lemma size_val_le: "size (val e) < size_TMapEntry size e"
  by (cases e) simp

lemma size_fvalue_le: "size (fvalue f) < size_TField size f"
  by (cases f) simp

termination serializeValue
proof (relation "measure size", goal_cases)
  case 1
  show ?case by simp
next
  case (2 itemType items ts x)
  then show ?case by (simp add: size_list_estimation' less_Suc_eq_le)
next
  case (3 keyType itemType items data2 item)
  have "size (key item) < size_TMapEntry size item" by (rule size_key_le)
  also have "\<dots> \<le> size_list (size_TMapEntry size) items"
    using 3 by (simp add: size_list_estimation')
  finally show ?case by simp
next
  case (4 keyType itemType items data2 item k)
  have "size (val item) < size_TMapEntry size item" by (rule size_val_le)
  also have "\<dots> \<le> size_list (size_TMapEntry size) items"
    using 4 by (simp add: size_list_estimation')
  finally show ?case by simp
next
  case (5 itemType items ts x)
  then show ?case by (simp add: size_list_estimation' less_Suc_eq_le)
next
  case (6 fields data p id' field ts)
  have "size (fvalue field) < size_TField size field" by (rule size_fvalue_le)
  also have "\<dots> \<le> size_list (size_prod (\<lambda>x. 0) (size_TField size)) fields"
    using 6 by (auto intro!: size_list_estimation'[where x="(id', field)"])
  finally show ?case by simp
qed

text \<open>
  \<open>deserializeValue\<close> recurses into the elements of an array and into the property
  values of an object, and, in the map case, decodes each property name as a string.
  A string enumerates its characters, each a string again, but under index names, which
  are no wire tags: the struct case stops there.
\<close>

lemma set_shift_subset: "shift xs = (x, ys) \<Longrightarrow> set ys \<subseteq> set xs"
  by (cases xs) auto

lemma shift_size_le: "shift xs = (x, ys) \<Longrightarrow> size_list size ys \<le> size_list size xs"
  by (cases xs) auto

lemma shift_fst_size_le: "shift xs = (x, ys) \<Longrightarrow> size x \<le> size_list size xs"
  by (cases xs) auto

lemma hd_show_nat_digit: "is_digit (hd (show_nat n))"
proof (induction n rule: show_nat.induct)
  case (1 n)
  show ?case
  proof (cases "n < 10")
    case True
    then have "n \<in> {0, 1, 2, 3, 4, 5, 6, 7, 8, 9}" by auto
    then show ?thesis
      by (subst show_nat.simps) (auto simp: is_digit_def digit_char_def)
  next
    case False
    have ne: "show_nat (n div 10) \<noteq> []"
      by (subst show_nat.simps) simp
    from False 1 have "is_digit (hd (show_nat (n div 10)))" by simp
    with False ne show ?thesis
      by (subst show_nat.simps) simp
  qed
qed

lemma typeOfString_not_digit:
  "typeOfString (JStr s) = Inr t \<Longrightarrow> \<not> is_digit (hd s)"
  by (auto simp: typeOfString_def is_digit_def split: if_splits)

lemma typeOfString_show_nat: "typeOfString (JStr (show_nat n)) \<noteq> Inr t"
  using typeOfString_not_digit hd_show_nat_digit by blast

lemma for_in_size_le: "(k, y) \<in> set (for_in v) \<Longrightarrow> size y \<le> size v"
proof (cases v)
  case (JObj kvs)
  assume "(k, y) \<in> set (for_in v)"
  with JObj have "size_prod (\<lambda>x. 0) size (k, y) \<le> size_list (size_prod (\<lambda>x. 0) size) kvs"
    by (auto intro: size_list_estimation')
  with JObj show ?thesis by simp
next
  case (JArr xs)
  assume "(k, y) \<in> set (for_in v)"
  with JArr have "y \<in> set xs" by (auto dest: set_zip_rightD)
  then have "size y \<le> size_list size xs" by (auto intro: size_list_estimation')
  with JArr show ?thesis by simp
next
  case (JStr s)
  assume "(k, y) \<in> set (for_in v)"
  with JStr show ?thesis by (auto dest!: set_zip_rightD)
qed auto

lemma for_in_typed_size_less:
  assumes "(k, y) \<in> set (for_in v)" and "typeOfString (JStr k) = Inr t"
  shows "size y < size v"
proof (cases v)
  case (JObj kvs)
  with assms have "size_prod (\<lambda>x. 0) size (k, y) \<le> size_list (size_prod (\<lambda>x. 0) size) kvs"
    by (auto intro: size_list_estimation')
  with JObj show ?thesis by simp
next
  case (JArr xs)
  with assms have "k \<in> set (map show_nat [0..<length xs])" by (auto dest: set_zip_leftD)
  with assms show ?thesis by (auto simp: typeOfString_show_nat)
next
  case (JStr s)
  with assms have "k \<in> set (map show_nat [0..<length s])" by (auto dest: set_zip_leftD)
  with assms show ?thesis by (auto simp: typeOfString_show_nat)
qed (use assms in auto)

lemma shift2_member_size:
  assumes "(a, ys) = shift xs" and "(b, zs) = shift ys" and "x \<in> set zs"
  shows "size x < Suc (size_list size xs)"
proof -
  from assms have "x \<in> set xs"
    by (metis set_shift_subset subsetD)
  then have "size x \<le> size_list size xs" by (auto intro: size_list_estimation')
  then show ?thesis by simp
qed

lemma shift4_for_in_size:
  assumes "(a, m1) = shift m0" and "(b, m2) = shift m1" and "(c, m3) = shift m2"
    and "(d, m4) = shift m3" and "(k, x) \<in> set (for_in d)"
  shows "size x < Suc (size_list size m0)"
proof -
  from assms(5) have "size x \<le> size d" by (rule for_in_size_le)
  also have "size d \<le> size_list size m3" using assms(4) by (metis shift_fst_size_le)
  also have "\<dots> \<le> size_list size m2" using assms(3) by (metis shift_size_le)
  also have "\<dots> \<le> size_list size m1" using assms(2) by (metis shift_size_le)
  also have "\<dots> \<le> size_list size m0" using assms(1) by (metis shift_size_le)
  finally show ?thesis by simp
qed

lemma for_in2_typed_size:
  assumes "(id', inner) \<in> set (for_in v)" and "(type, x) \<in> set (for_in inner)"
    and "typeOfString (JStr type) = Inr t"
  shows "size x < size v"
proof -
  have "size x < size inner" using assms(2,3) by (rule for_in_typed_size_less)
  also have "size inner \<le> size v" using assms(1) by (rule for_in_size_le)
  finally show ?thesis .
qed

function deserializeValue :: "TType \<Rightarrow> jsval \<Rightarrow> error + TValue" where
  "deserializeValue valueType value =
     (if valueType = BOOL then
        (if isNull value then Inr (TBase valueType None)
         else Inr (TBase valueType (Some (PBool (ToBoolean value)))))
      else if valueType \<in> {BYTE, I08, I16, I32, I64, DOUBLE} then
        (if isNull value then Inr (TBase valueType None)
         else case value of
                JNum n \<Rightarrow> Inr (TBase valueType (Some (PNum n)))
              | _ \<Rightarrow> Inl (TProtocolException INVALID_DATA ''number expected''))
      else if valueType \<in> {UTF7, UTF8, UTF16, STRING} then
        (if isNull value then Inr (TBase valueType None)
         else case value of
                JStr s \<Rightarrow> Inr (TBase valueType (Some (PStr s)))
              | _ \<Rightarrow> Inl (TProtocolException INVALID_DATA ''string expected''))
      else if valueType = LIST then
        (if falsy value \<or> js_lt (js_get value ''length'') (Num 2)
         then Inl (TProtocolException INVALID_DATA ''list expected'')
         else case value of
                JArr list \<Rightarrow>
                  (let (t, list1) = shift list in
                   case typeOfString t of
                     Inl e \<Rightarrow> Inl e
                   | Inr itemType \<Rightarrow>
                       (let (size', data) = shift list1 in
                        case mapM (deserializeValue itemType) data of
                          Inl e \<Rightarrow> Inl e
                        | Inr items \<Rightarrow>
                            if loose_neq size' (Num (of_nat (length items)))
                            then Inl (TProtocolException INVALID_DATA ''list size mismatch'')
                            else Inr (TList itemType items)))
              | _ \<Rightarrow> Inl TypeError)
      else if valueType = MAP then
        (if falsy value \<or> loose_neq (js_get value ''length'') (Num 4)
         then Inl (TProtocolException INVALID_DATA ''map expected'')
         else case value of
                JArr map0 \<Rightarrow>
                  (let (kt, map1) = shift map0 in
                   case typeOfString kt of
                     Inl e \<Rightarrow> Inl e
                   | Inr keyType \<Rightarrow>
                       (let (vt, map2) = shift map1 in
                        case typeOfString vt of
                          Inl e \<Rightarrow> Inl e
                        | Inr itemType \<Rightarrow>
                            (let (size', map3) = shift map2 in
                             let (data, map4) = shift map3 in
                             case mapM (\<lambda>(k, x).
                                     case deserializeValue keyType (JStr k) of
                                       Inl e \<Rightarrow> Inl e
                                     | Inr k' \<Rightarrow>
                                         (case deserializeValue itemType x of
                                            Inl e \<Rightarrow> Inl e
                                          | Inr x' \<Rightarrow> Inr (TMapEntry k' x')))
                                   (for_in data) of
                               Inl e \<Rightarrow> Inl e
                             | Inr items \<Rightarrow>
                                 if loose_neq size' (Num (of_nat (length items)))
                                 then Inl (TProtocolException INVALID_DATA ''map size mismatch'')
                                 else Inr (TMap keyType itemType items))))
              | _ \<Rightarrow> Inl TypeError)
      else if valueType = SET then
        (if falsy value \<or> js_lt (js_get value ''length'') (Num 2)
         then Inl (TProtocolException INVALID_DATA ''set expected'')
         else case value of
                JArr set0 \<Rightarrow>
                  (let (t, set1) = shift set0 in
                   case typeOfString t of
                     Inl e \<Rightarrow> Inl e
                   | Inr itemType \<Rightarrow>
                       (let (size', data) = shift set1 in
                        case mapM (deserializeValue itemType) data of
                          Inl e \<Rightarrow> Inl e
                        | Inr items \<Rightarrow>
                            if loose_neq size' (Num (of_nat (length items)))
                            then Inl (TProtocolException INVALID_DATA ''set size mismatch'')
                            else Inr (TSet itemType items)))
              | _ \<Rightarrow> Inl TypeError)
      else if valueType = STRUCT then
        (if falsy value
         then Inl (TProtocolException INVALID_DATA ''struct expected'')
         else case foldM (\<lambda>fields (id', inner).
                      foldM (\<lambda>fields (type, x).
                          case typeOfString (JStr type) of
                            Inl e \<Rightarrow> Inl e
                          | Inr fieldType' \<Rightarrow>
                              (case deserializeValue fieldType' x of
                                 Inl e \<Rightarrow> Inl e
                               | Inr v \<Rightarrow>
                                   Inr (set_property (ToString_num (parseInt id'))
                                          (TField fieldType' v) fields)))
                        fields (for_in inner))
                    [] (for_in value) of
                Inl e \<Rightarrow> Inl e
              | Inr fields \<Rightarrow> Inr (TStruct fields))
      else Inl (TProtocolException INVALID_DATA ''unsupported value type''))"
  by pat_completeness auto
termination
  apply (relation "measure (\<lambda>(t, v). size v)")
        apply simp_all
     apply (blast intro: shift2_member_size)
    apply (blast intro: shift4_for_in_size)
   apply (blast intro: shift2_member_size)
  apply (blast intro: for_in2_typed_size)
  done


declare deserializeValue.simps [simp del]

subsection \<open>Accessors\<close>

text \<open>
  The getters of the five classes that implement \<open>TValue\<close>. A getter of \<open>TBase\<close>
  returns the stored payload as it is, whatever it holds. On a \<open>null\<close> reference
  (\<open>Absent\<close>) every property read is a \<open>TypeError\<close>.
\<close>

fun get_valueType :: "TValue \<Rightarrow> error + TType" where
  "get_valueType Absent = Inl TypeError"
| "get_valueType (TBase valueType value) = Inr valueType"
| "get_valueType (TList itemType items) = Inr LIST"
| "get_valueType (TMap keyType itemType items) = Inr MAP"
| "get_valueType (TSet itemType items) = Inr SET"
| "get_valueType (TStruct fields) = Inr STRUCT"

fun booleanValue :: "TValue \<Rightarrow> error + prim option" where
  "booleanValue Absent = Inl TypeError"
| "booleanValue (TBase valueType value) =
     (if valueType = BOOL then Inr value
      else Inl (TProtocolException INVALID_DATA ''expected boolean value''))"
| "booleanValue v = Inl (TProtocolException INVALID_DATA ''expected boolean value'')"

fun numberValue :: "TValue \<Rightarrow> error + prim option" where
  "numberValue Absent = Inl TypeError"
| "numberValue (TBase valueType value) =
     (if valueType \<in> {BYTE, I08, I16, I32, I64, DOUBLE} then Inr value
      else Inl (TProtocolException INVALID_DATA ''expected number value''))"
| "numberValue v = Inl (TProtocolException INVALID_DATA ''expected number value'')"

fun stringValue :: "TValue \<Rightarrow> error + prim option" where
  "stringValue Absent = Inl TypeError"
| "stringValue (TBase valueType value) =
     (if valueType \<in> {STRING, UTF7, UTF8, UTF16} then Inr value
      else Inl (TProtocolException INVALID_DATA ''expected string value''))"
| "stringValue v = Inl (TProtocolException INVALID_DATA ''expected string value'')"

fun listValue :: "TValue \<Rightarrow> error + TValue" where
  "listValue Absent = Inl TypeError"
| "listValue (TList itemType items) = Inr (TList itemType items)"
| "listValue v = Inl (TProtocolException INVALID_DATA ''expected list value'')"

fun mapValue :: "TValue \<Rightarrow> error + TValue" where
  "mapValue Absent = Inl TypeError"
| "mapValue (TMap keyType itemType items) = Inr (TMap keyType itemType items)"
| "mapValue v = Inl (TProtocolException INVALID_DATA ''expected map value'')"

fun setValue :: "TValue \<Rightarrow> error + TValue" where
  "setValue Absent = Inl TypeError"
| "setValue (TSet itemType items) = Inr (TSet itemType items)"
| "setValue v = Inl (TProtocolException INVALID_DATA ''expected set value'')"

fun structValue :: "TValue \<Rightarrow> error + TValue" where
  "structValue Absent = Inl TypeError"
| "structValue (TStruct fields) = Inr (TStruct fields)"
| "structValue v = Inl (TProtocolException INVALID_DATA ''expected struct value'')"

fun asField :: "TValue \<Rightarrow> error + TValue TField" where
  "asField Absent = Inl TypeError"
| "asField (TBase valueType value) = Inr (TField valueType (TBase valueType value))"
| "asField (TList itemType items) = Inr (TField LIST (TList itemType items))"
| "asField (TMap keyType itemType items) = Inr (TField MAP (TMap keyType itemType items))"
| "asField (TSet itemType items) = Inr (TField SET (TSet itemType items))"
| "asField (TStruct fields) = Inr (TField STRUCT (TStruct fields))"

text \<open>
  \<open>TStruct.getField\<close>, on the \<open>fields\<close> object of the struct. A stored field is an
  object, hence truthy; a missing property reads as \<open>undefined\<close>.
\<close>

definition getField ::
  "(string \<times> TValue TField) list \<Rightarrow> number \<Rightarrow> TType \<Rightarrow> error + TValue TField option" where
  "getField fields id' fieldType' =
     (case map_of fields (ToString_num id') of
        None \<Rightarrow> Inr None
      | Some field \<Rightarrow> if fieldType field = fieldType' then Inr (Some field) else Inr None)"

subsection \<open>Messages\<close>

text \<open>
  \<open>readMessage\<close> and \<open>readStruct\<close> from the point where \<open>JSON.parse\<close> has returned:
  the argument is the parsed text. The four frame slots are stored unchecked.
\<close>

datatype TMessage =
  TMessage (name: jsval) (messageType: jsval) (seqid: jsval) (payload: TValue)

definition VERSION :: rat where
  "VERSION = 1"

definition readMessage :: "jsval \<Rightarrow> error + TMessage" where
  "readMessage data =
     (if falsy data \<or> loose_neq (js_get data ''length'') (Num 5)
      then Inl (TProtocolException INVALID_DATA ''illegal data format'')
      else
        (let version = js_get data ''0'';
             name = js_get data ''1'';
             messageType = js_get data ''2'';
             seqid = js_get data ''3'';
             value = js_get data ''4''
         in if loose_neq version (Num VERSION)
            then Inl (TProtocolException BAD_VERSION ''unsupported version'')
            else case deserializeValue STRUCT value of
                   Inl e \<Rightarrow> Inl e
                 | Inr v \<Rightarrow> Inr (TMessage name messageType seqid v)))"

definition readStruct :: "jsval \<Rightarrow> error + TValue" where
  "readStruct data =
     (if falsy data
      then Inl (TProtocolException INVALID_DATA ''illegal data format'')
      else deserializeValue STRUCT data)"

section \<open>The wire-tag table\<close>

text \<open>The eleven type tags that \<open>typeString\<close> maps to a wire tag string.\<close>

definition wire_tags :: "TType list" where
  "wire_tags = [BOOL, I08, I16, I32, I64, DOUBLE, STRING, LIST, MAP, SET, STRUCT]"

definition is_number_tag :: "TType \<Rightarrow> bool" where
  "is_number_tag t = (t \<in> {BYTE, I08, I16, I32, I64, DOUBLE})"

definition is_string_tag :: "TType \<Rightarrow> bool" where
  "is_string_tag t = (t \<in> {STRING, UTF7, UTF8, UTF16})"

definition is_scalar_tag :: "TType \<Rightarrow> bool" where
  "is_scalar_tag t = (t = BOOL \<or> is_number_tag t \<or> is_string_tag t)"

text \<open>
  Claim C5. The table has eleven distinct tags, and for each of them \<open>typeOfString\<close>
  gives the tag back from the wire tag string that \<open>typeString\<close> produces.
\<close>

theorem C5_tag_table:
  "length wire_tags = 11 \<and> distinct wire_tags \<and>
   (\<forall>t \<in> set wire_tags. \<exists>s. typeString t = Inr s \<and> typeOfString (JStr s) = Inr t)"
  by (simp add: wire_tags_def typeOfString_def)

theorem C5_tag_table_witness:
  "I64 \<in> set wire_tags \<and> typeString I64 = Inr ''i64'' \<and> typeOfString (JStr ''i64'') = Inr I64"
  using C5_tag_table by (simp add: wire_tags_def typeOfString_def)

text \<open>
  Claim C3 says that the four string tags all map to the wire tag string \<open>str\<close>. The
  scalar cases of \<open>serializeValue\<close> do treat \<open>UTF8\<close> and \<open>UTF16\<close> like \<open>STRING\<close>, but
  \<open>typeString\<close> has no case for them: the same string scalar that serializes on its
  own cannot be written as a struct field or declared as an item type.
\<close>

theorem C3_utf_tags_have_no_wire_string:
  "typeString UTF7 = Inr ''str'' \<and>
   typeString UTF8 = Inl (TProtocolException INVALID_DATA ''unsupported type'') \<and>
   typeString UTF16 = Inl (TProtocolException INVALID_DATA ''unsupported type'') \<and>
   serializeValue (TBase UTF8 (Some (PStr ''x''))) = Inr (JStr ''x'') \<and>
   asField (TBase UTF8 (Some (PStr ''x''))) = Inr (TField UTF8 (TBase UTF8 (Some (PStr ''x'')))) \<and>
   serializeValue (TStruct [(''1'', TField UTF8 (TBase UTF8 (Some (PStr ''x''))))])
     = Inl (TProtocolException INVALID_DATA ''unsupported type'') \<and>
   serializeValue (TList UTF16 []) = Inl (TProtocolException INVALID_DATA ''unsupported type'')"
  by (simp add: unsupported_type_def)

section \<open>Typed accessors\<close>

text \<open>
  The seven getters in the order of the interface \<open>TValue\<close>, their results brought to
  one type: a scalar getter returns the optional payload, a container getter returns
  the container.
\<close>

datatype held = Payload "prim option" | Container TValue

definition accessors :: "TValue \<Rightarrow> (error + held) list" where
  "accessors v =
     [map_sum id Payload (booleanValue v), map_sum id Payload (numberValue v),
      map_sum id Payload (stringValue v), map_sum id Container (listValue v),
      map_sum id Container (mapValue v), map_sum id Container (setValue v),
      map_sum id Container (structValue v)]"

fun held_data :: "TValue \<Rightarrow> held" where
  "held_data (TBase valueType value) = Payload value"
| "held_data v = Container v"

text \<open>
  The concrete variants of claim C6: a scalar (a \<open>TBase\<close> with a scalar tag) whose
  payload is present, a list, a set, a map or a struct.
\<close>

fun concrete_variant :: "TValue \<Rightarrow> bool" where
  "concrete_variant Absent = False"
| "concrete_variant (TBase valueType value) = (is_scalar_tag valueType \<and> value \<noteq> None)"
| "concrete_variant v = True"

definition raises_invalid_data :: "error + 'a \<Rightarrow> bool" where
  "raises_invalid_data r = (\<exists>msg. r = Inl (TProtocolException INVALID_DATA msg))"

text \<open>The position in \<open>accessors\<close> of the getter that belongs to a scalar tag.\<close>

definition accessor_for :: "TType \<Rightarrow> nat" where
  "accessor_for t = (if t = BOOL then 0 else if is_number_tag t then 1 else 2)"

lemma accessors_TBase:
  "is_scalar_tag t \<Longrightarrow>
   accessors (TBase t p) ! accessor_for t = Inr (Payload p) \<and>
   (\<forall>j < 7. j \<noteq> accessor_for t \<longrightarrow> raises_invalid_data (accessors (TBase t p) ! j))"
  by (auto simp: accessors_def accessor_for_def raises_invalid_data_def nth_Cons'
      is_scalar_tag_def is_number_tag_def is_string_tag_def)

text \<open>
  Claim C6. For a concrete variant one of the seven getters returns the held data and
  each of the other six raises a protocol failure of kind \<open>INVALID_DATA\<close>.
\<close>

theorem C6_accessor_exclusive:
  assumes "concrete_variant v"
  shows "\<exists>i < 7. accessors v ! i = Inr (held_data v) \<and>
           (\<forall>j < 7. j \<noteq> i \<longrightarrow> raises_invalid_data (accessors v ! j))"
proof (cases v)
  case Absent
  with assms show ?thesis by simp
next
  case (TBase t p)
  with assms have "is_scalar_tag t" by simp
  then have "accessor_for t < 7" and
    "accessors (TBase t p) ! accessor_for t = Inr (Payload p) \<and>
     (\<forall>j < 7. j \<noteq> accessor_for t \<longrightarrow> raises_invalid_data (accessors (TBase t p) ! j))"
    by (simp add: accessor_for_def, rule accessors_TBase)
  with TBase show ?thesis by auto
next
  case (TList it items)
  then show ?thesis
    by (intro exI[of _ 3]) (auto simp: accessors_def raises_invalid_data_def nth_Cons')
next
  case (TMap kt vt items)
  then show ?thesis
    by (intro exI[of _ 4]) (auto simp: accessors_def raises_invalid_data_def nth_Cons')
next
  case (TSet it items)
  then show ?thesis
    by (intro exI[of _ 5]) (auto simp: accessors_def raises_invalid_data_def nth_Cons')
next
  case (TStruct fields)
  then show ?thesis
    by (intro exI[of _ 6]) (auto simp: accessors_def raises_invalid_data_def nth_Cons')
qed

theorem C6_accessor_exclusive_witness:
  "concrete_variant (TList I32 []) \<and>
   (\<exists>i < 7. accessors (TList I32 []) ! i = Inr (Container (TList I32 [])) \<and>
      (\<forall>j < 7. j \<noteq> i \<longrightarrow> raises_invalid_data (accessors (TList I32 []) ! j)))"
  using C6_accessor_exclusive [of "TList I32 []"] by simp

text \<open>
  Claim C10. For a scalar with no payload the getter that belongs to its tag returns
  the absent payload and raises nothing; the other six raise \<open>INVALID_DATA\<close>.
\<close>

theorem C10_absent_payload:
  assumes "is_scalar_tag t"
  shows "accessors (TBase t None) ! accessor_for t = Inr (Payload None) \<and>
         (\<forall>j < 7. j \<noteq> accessor_for t \<longrightarrow> raises_invalid_data (accessors (TBase t None) ! j))"
  using assms by (rule accessors_TBase)

theorem C10_absent_payload_witness:
  "is_scalar_tag I32 \<and> numberValue (TBase I32 None) = Inr None \<and>
   raises_invalid_data (booleanValue (TBase I32 None)) \<and>
   raises_invalid_data (stringValue (TBase I32 None)) \<and>
   raises_invalid_data (listValue (TBase I32 None)) \<and>
   raises_invalid_data (mapValue (TBase I32 None)) \<and>
   raises_invalid_data (setValue (TBase I32 None)) \<and>
   raises_invalid_data (structValue (TBase I32 None))"
proof -
  have tag: "is_scalar_tag I32"
    by (simp add: is_scalar_tag_def is_number_tag_def)
  have pos: "accessor_for I32 = 1"
    by (simp add: accessor_for_def is_number_tag_def)
  from C10_absent_payload [OF tag] have
    one: "accessors (TBase I32 None) ! 1 = Inr (Payload None)" and
    rest: "\<forall>j < 7. j \<noteq> 1 \<longrightarrow> raises_invalid_data (accessors (TBase I32 None) ! j)"
    by (simp_all add: pos)
  from rest have "raises_invalid_data (accessors (TBase I32 None) ! 0)"
    "raises_invalid_data (accessors (TBase I32 None) ! 2)"
    "raises_invalid_data (accessors (TBase I32 None) ! 3)"
    "raises_invalid_data (accessors (TBase I32 None) ! 4)"
    "raises_invalid_data (accessors (TBase I32 None) ! 5)"
    "raises_invalid_data (accessors (TBase I32 None) ! 6)"
    by simp_all
  with one tag show ?thesis
    by (simp add: accessors_def raises_invalid_data_def is_number_tag_def)
qed

section \<open>Struct field lookup\<close>

text \<open>
  Claim C7. \<open>getField\<close> never raises; it returns a field exactly when the struct
  stores that field under the id and the field's type is the expected one, and the
  absent result in every other case.
\<close>

theorem C7_getField:
  "(\<exists>r. getField fields id' t = Inr r) \<and>
   (getField fields id' t = Inr (Some f)
      \<longleftrightarrow> map_of fields (ToString_num id') = Some f \<and> fieldType f = t) \<and>
   ((\<nexists>g. map_of fields (ToString_num id') = Some g \<and> fieldType g = t)
      \<longrightarrow> getField fields id' t = Inr None)"
  by (auto simp: getField_def split: option.splits)

theorem C7_getField_witness:
  "getField [(''1'', TField I32 (TBase I32 (Some (PNum (Num 7)))))] (Num 1) I32
     = Inr (Some (TField I32 (TBase I32 (Some (PNum (Num 7)))))) \<and>
   getField [(''1'', TField I32 (TBase I32 (Some (PNum (Num 7)))))] (Num 1) STRING = Inr None \<and>
   getField [(''1'', TField I32 (TBase I32 (Some (PNum (Num 7)))))] (Num 2) I32 = Inr None"
proof -
  let ?f = "TField I32 (TBase I32 (Some (PNum (Num 7))))"
  have one: "ToString_num (Num 1) = ''1''" and two: "ToString_num (Num 2) = ''2''"
    by code_simp+
  have "getField [(''1'', ?f)] (Num 1) I32 = Inr (Some ?f)"
    using C7_getField [of "[(''1'', ?f)]" "Num 1" I32 ?f] by (simp add: one del: ToString_num.simps)
  moreover have "getField [(''1'', ?f)] (Num 1) STRING = Inr None"
    using C7_getField [of "[(''1'', ?f)]" "Num 1" STRING ?f] by (simp add: one del: ToString_num.simps)
  moreover have "getField [(''1'', ?f)] (Num 2) I32 = Inr None"
    using C7_getField [of "[(''1'', ?f)]" "Num 2" I32 ?f] by (simp add: two del: ToString_num.simps)
  ultimately show ?thesis by simp
qed

section \<open>Decoding\<close>

lemma mapM_Inr_iff: "mapM f xs = Inr ys \<longleftrightarrow> list_all2 (\<lambda>x y. f x = Inr y) xs ys"
proof (induction xs arbitrary: ys)
  case Nil
  show ?case by auto
next
  case (Cons x xs)
  show ?case
    by (cases "f x"; cases "mapM f xs") (auto simp: list_all2_Cons1 Cons.IH[symmetric])
qed

lemma deserializeValue_BOOL:
  "deserializeValue BOOL v =
     (if isNull v then Inr (TBase BOOL None) else Inr (TBase BOOL (Some (PBool (ToBoolean v)))))"
  by (subst deserializeValue.simps) simp

lemma deserializeValue_number:
  "is_number_tag t \<Longrightarrow> deserializeValue t v =
     (if isNull v then Inr (TBase t None)
      else case v of JNum n \<Rightarrow> Inr (TBase t (Some (PNum n)))
           | _ \<Rightarrow> Inl (TProtocolException INVALID_DATA ''number expected''))"
  by (subst deserializeValue.simps) (auto simp: is_number_tag_def)

lemma deserializeValue_string:
  "is_string_tag t \<Longrightarrow> deserializeValue t v =
     (if isNull v then Inr (TBase t None)
      else case v of JStr s \<Rightarrow> Inr (TBase t (Some (PStr s)))
           | _ \<Rightarrow> Inl (TProtocolException INVALID_DATA ''string expected''))"
  by (subst deserializeValue.simps) (auto simp: is_string_tag_def)

lemma deserializeValue_MAP_array:
  "deserializeValue MAP (JArr [kt, vt, size', data]) =
     (case typeOfString kt of
        Inl e \<Rightarrow> Inl e
      | Inr keyType \<Rightarrow>
          (case typeOfString vt of
             Inl e \<Rightarrow> Inl e
           | Inr itemType \<Rightarrow>
               (case mapM (\<lambda>(k, x).
                       case deserializeValue keyType (JStr k) of
                         Inl e \<Rightarrow> Inl e
                       | Inr k' \<Rightarrow>
                           (case deserializeValue itemType x of
                              Inl e \<Rightarrow> Inl e
                            | Inr x' \<Rightarrow> Inr (TMapEntry k' x')))
                     (for_in data) of
                  Inl e \<Rightarrow> Inl e
                | Inr items \<Rightarrow>
                    if loose_neq size' (Num (of_nat (length items)))
                    then Inl (TProtocolException INVALID_DATA ''map size mismatch'')
                    else Inr (TMap keyType itemType items))))"
  by (subst deserializeValue.simps)
    (simp add: loose_neq_def isNull_def falsy_def cong: sum.case_cong)

text \<open>
  Claim C2, amended. Of an input that is neither \<open>undefined\<close> nor \<open>null\<close>, a numeric
  tag accepts a number and nothing else, a string tag accepts a string and nothing
  else, both raising \<open>INVALID_DATA\<close> otherwise; the tag \<open>BOOL\<close> accepts every input and
  stores its truthiness.
\<close>

theorem C2_scalar_decode:
  assumes "\<not> isNull v"
  shows "deserializeValue BOOL v = Inr (TBase BOOL (Some (PBool (ToBoolean v)))) \<and>
    (is_number_tag t \<longrightarrow>
       (\<forall>n. v = JNum n \<longrightarrow> deserializeValue t v = Inr (TBase t (Some (PNum n)))) \<and>
       ((\<nexists>n. v = JNum n) \<longrightarrow>
          deserializeValue t v = Inl (TProtocolException INVALID_DATA ''number expected''))) \<and>
    (is_string_tag t \<longrightarrow>
       (\<forall>s. v = JStr s \<longrightarrow> deserializeValue t v = Inr (TBase t (Some (PStr s)))) \<and>
       ((\<nexists>s. v = JStr s) \<longrightarrow>
          deserializeValue t v = Inl (TProtocolException INVALID_DATA ''string expected'')))"
  using assms
  by (cases v)
    (auto simp: deserializeValue_BOOL deserializeValue_number deserializeValue_string isNull_def)

theorem C2_scalar_decode_witness:
  "\<not> isNull (JStr ''7'') \<and> is_number_tag I32 \<and> is_string_tag STRING \<and>
   deserializeValue BOOL (JStr ''7'') = Inr (TBase BOOL (Some (PBool True))) \<and>
   deserializeValue I32 (JStr ''7'') = Inl (TProtocolException INVALID_DATA ''number expected'') \<and>
   deserializeValue STRING (JStr ''7'') = Inr (TBase STRING (Some (PStr ''7'')))"
proof -
  have v: "\<not> isNull (JStr ''7'')" by (simp add: isNull_def)
  have n: "is_number_tag I32" by (simp add: is_number_tag_def)
  have s: "is_string_tag STRING" by (simp add: is_string_tag_def)
  from C2_scalar_decode [OF v, of I32] C2_scalar_decode [OF v, of STRING] v n s
  show ?thesis by simp
qed

theorem C2_scalar_decode_counterexample:
  "deserializeValue BOOL (JStr ''no'') = Inr (TBase BOOL (Some (PBool True))) \<and>
   deserializeValue BOOL (JNum (Num 0)) = Inr (TBase BOOL (Some (PBool False)))"
  by (simp add: deserializeValue_BOOL isNull_def)

lemma entry_eq_iff: "TMapEntry a b = e \<longleftrightarrow> key e = a \<and> val e = b"
  by (cases e) auto

text \<open>
  Claim C4, amended. Let the map declare the key tag \<open>str\<close> or \<open>tf\<close>. Decoding a map whose
  fourth element is an object succeeds exactly when every property value, passed to
  the decoder with the declared value tag, decodes, and the declared count is loosely
  equal to the number of properties; the entries are the decoded pairs in the order
  of the properties. The key of an entry carries the declared key tag: under \<open>str\<close> it
  is the string scalar that holds the property name, under \<open>tf\<close> it is the boolean
  scalar that tells whether the property name is non-empty.
\<close>

theorem C4_map_decode:
  assumes "typeOfString kt = Inr keyType" and "keyType = STRING \<or> keyType = BOOL"
    and "typeOfString vt = Inr itemType"
  shows "deserializeValue MAP (JArr [kt, vt, size', JObj entries]) = Inr r \<longleftrightarrow>
     (\<exists>items. r = TMap keyType itemType items \<and>
        list_all2 (\<lambda>(k, x) e.
            key e = (if keyType = BOOL then TBase BOOL (Some (PBool (k \<noteq> [])))
                     else TBase STRING (Some (PStr k))) \<and>
            deserializeValue itemType x = Inr (val e)) entries items \<and>
        \<not> loose_neq size' (Num (of_nat (length items))))"
proof -
  let ?key = "\<lambda>k. if keyType = BOOL then TBase BOOL (Some (PBool (k \<noteq> [])))
                   else TBase STRING (Some (PStr k))"
  let ?f = "\<lambda>(k, x). case deserializeValue keyType (JStr k) of
                         Inl e \<Rightarrow> Inl e
                       | Inr k' \<Rightarrow>
                           (case deserializeValue itemType x of
                              Inl e \<Rightarrow> Inl e
                            | Inr x' \<Rightarrow> Inr (TMapEntry k' x'))"
  have kd: "deserializeValue keyType (JStr k) = Inr (?key k)" for k
    using assms(2)
    by (auto simp: deserializeValue_BOOL deserializeValue_string is_string_tag_def isNull_def)
  have eq: "(\<lambda>p e. ?f p = Inr e) =
     (\<lambda>(k, x) e. key e = ?key k \<and> deserializeValue itemType x = Inr (val e))"
    by (intro ext) (auto simp: kd entry_eq_iff split: sum.splits prod.splits)
  have iff: "list_all2 (\<lambda>(k, x) e. key e = ?key k \<and>
                    deserializeValue itemType x = Inr (val e)) entries items
             \<longleftrightarrow> mapM ?f entries = Inr items" for items
    by (simp add: mapM_Inr_iff eq)
  show ?thesis
  proof (cases "mapM ?f entries")
    case (Inl e)
    then show ?thesis
      by (simp add: deserializeValue_MAP_array assms(1,3) iff)
  next
    case (Inr items0)
    then show ?thesis
      by (auto simp: deserializeValue_MAP_array assms(1,3) iff)
  qed
qed

theorem C4_map_decode_witness:
  "typeOfString (JStr ''str'') = Inr STRING \<and> typeOfString (JStr ''i32'') = Inr I32 \<and>
   deserializeValue MAP
     (JArr [JStr ''str'', JStr ''i32'', JNum (Num 1), JObj [(''a'', JNum (Num 1))]])
   = Inr (TMap STRING I32
       [TMapEntry (TBase STRING (Some (PStr ''a''))) (TBase I32 (Some (PNum (Num 1))))])"
proof -
  have k: "typeOfString (JStr ''str'') = Inr STRING"
    and v: "typeOfString (JStr ''i32'') = Inr I32"
    by (simp_all add: typeOfString_def)
  have s: "STRING = STRING \<or> STRING = BOOL" by simp
  have "deserializeValue I32 (JNum (Num 1)) = Inr (TBase I32 (Some (PNum (Num 1))))"
    by (simp add: deserializeValue_number is_number_tag_def isNull_def)
  moreover have "\<not> loose_neq (JNum (Num 1)) (Num (of_nat (length [a])))" for a :: "TValue TMapEntry"
    by (simp add: loose_neq_def isNull_def)
  ultimately show ?thesis
    using C4_map_decode [OF k s v, of "JNum (Num 1)" "[(''a'', JNum (Num 1))]"] k v
    by simp
qed

theorem C4_map_decode_counterexample:
  "deserializeValue MAP
     (JArr [JStr ''tf'', JStr ''i32'', JNum (Num 1), JObj [(''a'', JNum (Num 2))]])
   = Inr (TMap BOOL I32
       [TMapEntry (TBase BOOL (Some (PBool True))) (TBase I32 (Some (PNum (Num 2))))])"
  by code_simp

text \<open>
  Under a numeric key tag the property name, a string, is passed to the decode of a
  number: a map with at least one property is refused at its first property.
\<close>

theorem number_keyed_map_decode:
  assumes "typeOfString kt = Inr keyType" and "is_number_tag keyType"
    and "typeOfString vt = Inr itemType" and "entries \<noteq> []"
  shows "deserializeValue MAP (JArr [kt, vt, size', JObj entries]) =
           Inl (TProtocolException INVALID_DATA ''number expected'')"
proof -
  from assms(4) obtain k x rest where "entries = (k, x) # rest"
    by (cases entries) auto
  with assms(1-3) show ?thesis
    by (simp add: deserializeValue_MAP_array deserializeValue_number isNull_def)
qed

theorem number_keyed_map_decode_witness:
  "typeOfString (JStr ''i32'') = Inr I32 \<and> is_number_tag I32 \<and>
   deserializeValue MAP
     (JArr [JStr ''i32'', JStr ''i32'', JNum (Num 1), JObj [(''5'', JNum (Num 6))]])
   = Inl (TProtocolException INVALID_DATA ''number expected'')"
proof -
  have k: "typeOfString (JStr ''i32'') = Inr I32" by (simp add: typeOfString_def)
  have n: "is_number_tag I32" by (simp add: is_number_tag_def)
  have e: "[(''5'', JNum (Num 6))] \<noteq> []" by simp
  from number_keyed_map_decode [OF k n k e, of "JNum (Num 1)"] k n show ?thesis by simp
qed

text \<open>
  Claim C8 says that every input that is not an array of at least two elements is
  refused with \<open>INVALID_DATA\<close>, and every count that differs from the number of items.
  The guard \<open>!list || list.length < 2\<close> lets through every truthy value whose \<open>length\<close>
  is not a number below 2: an object, \<open>true\<close>, a number, a string of two characters.
  The call \<open>list.shift()\<close> then raises a \<open>TypeError\<close>. The count is compared with
  \<open>!=\<close>, so the string \<open>"2"\<close> counts two items. On the example of the claim the code
  does raise \<open>INVALID_DATA\<close>.
\<close>

theorem C8_list_guard_lets_non_arrays_through:
  "deserializeValue LIST (JObj []) = Inl TypeError \<and>
   deserializeValue LIST (JBool True) = Inl TypeError \<and>
   deserializeValue SET (JStr ''ab'') = Inl TypeError \<and>
   deserializeValue LIST (JArr [JStr ''i32'', JStr ''2'', JNum (Num 1), JNum (Num 2)])
     = Inr (TList I32 [TBase I32 (Some (PNum (Num 1))), TBase I32 (Some (PNum (Num 2)))]) \<and>
   deserializeValue LIST (JArr [JStr ''i32'', JNum (Num 3), JNum (Num 1), JNum (Num 2)])
     = Inl (TProtocolException INVALID_DATA ''list size mismatch'')"
  by code_simp

text \<open>
  Claim C9 says that every parsed input that is not an array of five elements is
  refused with \<open>INVALID_DATA\<close>. The guard \<open>!data || data.length != 5\<close> lets a string of
  five characters through, which then fails the version check instead, and accepts an
  object that has a property \<open>length\<close> of 5. On the arrays of the claim's examples the
  code behaves as the claim says.
\<close>

theorem C9_message_guard_lets_non_arrays_through:
  "readMessage (JStr ''abcde'') = Inl (TProtocolException BAD_VERSION ''unsupported version'') \<and>
   readMessage (JObj [(''length'', JNum (Num 5)), (''0'', JNum (Num 1)), (''4'', JObj [])])
     = Inr (TMessage JUndefined JUndefined JUndefined (TStruct [])) \<and>
   readMessage (JArr [JNum (Num 2), JStr ''ping'', JNum (Num 1), JNum (Num 42), JObj []])
     = Inl (TProtocolException BAD_VERSION ''unsupported version'') \<and>
   readMessage (JArr [JNum (Num 1), JStr ''ping'', JNum (Num 1), JNum (Num 42)])
     = Inl (TProtocolException INVALID_DATA ''illegal data format'') \<and>
   readMessage (JArr [JNum (Num 1), JStr ''ping'', JNum (Num 1), JNum (Num 42), JObj []])
     = Inr (TMessage (JStr ''ping'') (JNum (Num 1)) (JNum (Num 42)) (TStruct []))"
  by code_simp

section \<open>Round trip\<close>

text \<open>
  The order in which an object enumerates its properties: array indices in ascending
  order first, then the other names in the order of their creation. \<open>key_le k k'\<close>
  says that \<open>k\<close> may stand before \<open>k'\<close>.
\<close>

definition key_le :: "string \<Rightarrow> string \<Rightarrow> bool" where
  "key_le k k' =
     (case index_of k' of
        None \<Rightarrow> True
      | Some j \<Rightarrow> (case index_of k of None \<Rightarrow> False | Some i \<Rightarrow> i < j))"

definition property_order :: "string list \<Rightarrow> bool" where
  "property_order ks = (distinct ks \<and> sorted_wrt key_le ks)"

text \<open>
  A field id that \<open>fields[parseInt(id)]\<close> stores under the same name: the numeral of an
  integer as \<open>Number::toString\<close> prints it.
\<close>

definition canonical_id :: "string \<Rightarrow> bool" where
  "canonical_id k = (ToString_num (parseInt k) = k)"

text \<open>
  A map key that survives as a property name: under the key tag \<open>STRING\<close> a string
  scalar with a payload, which is its own name; under the key tag \<open>BOOL\<close> the scalar
  \<open>true\<close>, which is written as 1, named \<open>1\<close> and read back as a non-empty string.
\<close>

fun is_map_key :: "TType \<Rightarrow> TValue \<Rightarrow> bool" where
  "is_map_key keyType (TBase valueType (Some (PStr k))) =
     (keyType = STRING \<and> valueType = STRING \<and> k \<noteq> ''__proto__'')"
| "is_map_key keyType (TBase valueType (Some (PBool b))) =
     (keyType = BOOL \<and> valueType = BOOL \<and> b)"
| "is_map_key keyType v = False"

fun key_name :: "TValue \<Rightarrow> string" where
  "key_name (TBase valueType (Some (PStr k))) = k"
| "key_name (TBase valueType (Some (PBool b))) = (if b then ''1'' else ''0'')"
| "key_name v = []"

text \<open>
  The trees for which the round trip is proved. A scalar has a scalar tag and no
  payload or a payload of the tag's type, no \<open>NaN\<close>. A list, a set, a map (for its
  keys and for its values) and the fields of a struct declare one of the eleven wire
  tags, and the items, values and fields report the declared tag. The keys of a map
  are keys that survive as property names, with distinct names listed in property
  order; a map with no entries may declare any wire tag for its keys. The field ids
  of a struct are canonical and listed in property order.
\<close>

function well_formed :: "TValue \<Rightarrow> bool" where
  "well_formed Absent = False"
| "well_formed (TBase valueType value) =
     (case value of
        None \<Rightarrow> is_scalar_tag valueType
      | Some (PBool b) \<Rightarrow> valueType = BOOL
      | Some (PNum n) \<Rightarrow> is_number_tag valueType \<and> \<not> isNaN n
      | Some (PStr s) \<Rightarrow> is_string_tag valueType)"
| "well_formed (TList itemType items) =
     (itemType \<in> set wire_tags \<and>
      (\<forall>x \<in> set items. get_valueType x = Inr itemType \<and> well_formed x))"
| "well_formed (TMap keyType itemType items) =
     (keyType \<in> set wire_tags \<and> itemType \<in> set wire_tags \<and>
      (\<forall>e \<in> set items. is_map_key keyType (key e) \<and> get_valueType (val e) = Inr itemType \<and>
                          well_formed (val e)) \<and>
      property_order (map (\<lambda>e. key_name (key e)) items))"
| "well_formed (TSet itemType items) =
     (itemType \<in> set wire_tags \<and>
      (\<forall>x \<in> set items. get_valueType x = Inr itemType \<and> well_formed x))"
| "well_formed (TStruct fields) =
     (property_order (map fst fields) \<and>
      (\<forall>p \<in> set fields. canonical_id (fst p) \<and> fieldType (snd p) \<in> set wire_tags \<and>
                           get_valueType (fvalue (snd p)) = Inr (fieldType (snd p)) \<and>
                           well_formed (fvalue (snd p))))"
  by pat_completeness auto

lemma size_entry_val: "e \<in> set items \<Longrightarrow> size (val e) < Suc (size_list (size_TMapEntry size) items)"
proof -
  assume "e \<in> set items"
  then have "size_TMapEntry size e \<le> size_list (size_TMapEntry size) items"
    by (simp add: size_list_estimation')
  with size_val_le [of e] show ?thesis by simp
qed

lemma size_field_value:
  "p \<in> set fields \<Longrightarrow>
   size (fvalue (snd p)) < Suc (size_list (size_prod (\<lambda>x. 0) (size_TField size)) fields)"
proof -
  assume "p \<in> set fields"
  then have "size_prod (\<lambda>x. 0) (size_TField size) p
      \<le> size_list (size_prod (\<lambda>x. 0) (size_TField size)) fields"
    by (simp add: size_list_estimation')
  with size_fvalue_le [of "snd p"] show ?thesis by (cases p) simp
qed

termination well_formed
  apply (relation "measure size")
      apply (simp_all add: size_list_estimation' less_Suc_eq_le)
   apply (metis size_entry_val less_Suc_eq_le)
  apply (metis size_field_value less_Suc_eq_le)
  done

subsection \<open>Building an object in property order\<close>

lemma obj_insert_last:
  "\<forall>p \<in> set ps. \<not> comes_before k (fst p) \<Longrightarrow> obj_insert k v ps = ps @ [(k, v)]"
  by (induction ps) auto

lemma key_le_not_before: "key_le k' k \<Longrightarrow> \<not> comes_before k k'"
  by (auto simp: key_le_def comes_before_def split: option.splits)

lemma set_property_last:
  assumes "property_order (map fst ps @ [k])" and "k \<noteq> ''__proto__''"
  shows "set_property k v ps = ps @ [(k, v)]"
proof -
  from assms(1) have new: "k \<notin> set (map fst ps)"
    and le: "\<forall>k' \<in> set (map fst ps). key_le k' k"
    by (auto simp: property_order_def sorted_wrt_append)
  from le have "\<forall>p \<in> set ps. \<not> comes_before k (fst p)"
    by (auto dest!: key_le_not_before bspec)
  then have "obj_insert k v ps = ps @ [(k, v)]" by (rule obj_insert_last)
  with new assms(2) show ?thesis by (simp add: set_property_def obj_set_def)
qed

lemma property_order_prefix: "property_order (ks @ ks') \<Longrightarrow> property_order ks"
  by (auto simp: property_order_def sorted_wrt_append)

text \<open>
  A loop that stores one property per element, under names in property order, builds
  the object that lists these properties in the order of the elements.
\<close>

lemma foldM_builds_object:
  assumes "\<And>acc x. x \<in> set xs \<Longrightarrow> f acc x = Inr (set_property (kf x) (vf x) acc)"
    and "property_order (map fst acc @ map kf xs)"
    and "''__proto__'' \<notin> set (map kf xs)"
  shows "foldM f acc xs = Inr (acc @ map (\<lambda>x. (kf x, vf x)) xs)"
  using assms
proof (induction xs arbitrary: acc)
  case Nil
  show ?case by simp
next
  case (Cons x xs)
  have "property_order (map fst acc @ [kf x])"
    using Cons.prems(2) property_order_prefix [of "map fst acc @ [kf x]" "map kf xs"] by simp
  moreover have "kf x \<noteq> ''__proto__''" using Cons.prems(3) by auto
  ultimately have step: "f acc x = Inr (acc @ [(kf x, vf x)])"
    using Cons.prems(1) [of x acc] by (simp add: set_property_last)
  have "foldM f (acc @ [(kf x, vf x)]) xs
      = Inr ((acc @ [(kf x, vf x)]) @ map (\<lambda>x. (kf x, vf x)) xs)"
  proof (rule Cons.IH)
    show "f acc' y = Inr (set_property (kf y) (vf y) acc')" if "y \<in> set xs" for acc' y
      using that Cons.prems(1) by simp
    show "property_order (map fst (acc @ [(kf x, vf x)]) @ map kf xs)"
      using Cons.prems(2) by simp
    show "''__proto__'' \<notin> set (map kf xs)"
      using Cons.prems(3) by simp
  qed
  with step show ?case by simp
qed

lemma mapM_pointwise: "(\<And>x. x \<in> set xs \<Longrightarrow> f x = Inr (g x)) \<Longrightarrow> mapM f xs = Inr (map g xs)"
  by (induction xs) auto

lemma mapM_map: "mapM f (map h xs) = mapM (f \<circ> h) xs"
  by (induction xs) (simp_all cong: sum.case_cong)

subsection \<open>The wire forms\<close>

lemma wire_tag_inverse:
  assumes "t \<in> set wire_tags"
  shows "\<exists>s. typeString t = Inr s \<and> typeOfString (JStr s) = Inr t \<and> s \<noteq> ''__proto__''"
proof -
  from assms consider "t = BOOL" | "t = I08" | "t = I16" | "t = I32" | "t = I64"
    | "t = DOUBLE" | "t = STRING" | "t = LIST" | "t = MAP" | "t = SET" | "t = STRUCT"
    by (auto simp: wire_tags_def)
  then show ?thesis
    by cases (simp_all add: typeOfString_def)
qed

lemma loose_neq_numbers [simp]: "loose_neq (JNum (Num a)) (Num b) = (a \<noteq> b)"
  by (simp add: loose_neq_def isNull_def)

lemma two_items_not_below_two: "\<not> (of_nat (Suc (Suc n)) :: rat) < 2"
proof -
  have "(2 :: rat) = of_nat 2" by simp
  also have "\<dots> \<le> of_nat (Suc (Suc n))" unfolding of_nat_le_iff by simp
  finally show ?thesis by (simp only: not_less)
qed

lemma array_length_guard:
  "\<not> js_lt (js_get (JArr (t # size' # data)) ''length'') (Num 2)"
  using two_items_not_below_two [of "length data"] by (simp add: js_lt_def del: of_nat_Suc)

lemma deserializeValue_LIST_array:
  "deserializeValue LIST (JArr (t # size' # data)) =
     (case typeOfString t of
        Inl e \<Rightarrow> Inl e
      | Inr itemType \<Rightarrow>
          (case mapM (deserializeValue itemType) data of
             Inl e \<Rightarrow> Inl e
           | Inr items \<Rightarrow>
               if loose_neq size' (Num (of_nat (length items)))
               then Inl (TProtocolException INVALID_DATA ''list size mismatch'')
               else Inr (TList itemType items)))"
  by (subst deserializeValue.simps)
    (simp add: falsy_def array_length_guard del: js_get.simps cong: sum.case_cong)

lemma deserializeValue_SET_array:
  "deserializeValue SET (JArr (t # size' # data)) =
     (case typeOfString t of
        Inl e \<Rightarrow> Inl e
      | Inr itemType \<Rightarrow>
          (case mapM (deserializeValue itemType) data of
             Inl e \<Rightarrow> Inl e
           | Inr items \<Rightarrow>
               if loose_neq size' (Num (of_nat (length items)))
               then Inl (TProtocolException INVALID_DATA ''set size mismatch'')
               else Inr (TSet itemType items)))"
  by (subst deserializeValue.simps)
    (simp add: falsy_def array_length_guard del: js_get.simps cong: sum.case_cong)

lemma deserializeValue_STRUCT_object:
  "deserializeValue STRUCT (JObj ps) =
     (case foldM (\<lambda>fields (id', inner).
               foldM (\<lambda>fields (type, x).
                   case typeOfString (JStr type) of
                     Inl e \<Rightarrow> Inl e
                   | Inr fieldType' \<Rightarrow>
                       (case deserializeValue fieldType' x of
                          Inl e \<Rightarrow> Inl e
                        | Inr v \<Rightarrow>
                            Inr (set_property (ToString_num (parseInt id'))
                                   (TField fieldType' v) fields)))
                 fields (for_in inner))
             [] ps of
        Inl e \<Rightarrow> Inl e
      | Inr fields \<Rightarrow> Inr (TStruct fields))"
  by (subst deserializeValue.simps) (simp add: falsy_def)

subsection \<open>The round trip\<close>

lemma mapM_round_trip:
  "\<forall>x \<in> set xs. \<exists>j. f x = Inr j \<and> g j = Inr x \<Longrightarrow>
   \<exists>js. mapM f xs = Inr js \<and> mapM g js = Inr xs"
proof (induction xs)
  case Nil
  show ?case by simp
next
  case (Cons x xs)
  then obtain j js where "f x = Inr j" "g j = Inr x" "mapM f xs = Inr js" "mapM g js = Inr xs"
    by auto
  then show ?case by simp
qed

lemma scalar_round_trip:
  assumes "well_formed (TBase t p)"
  shows "\<exists>j. serializeValue (TBase t p) = Inr j \<and> deserializeValue t j = Inr (TBase t p)"
proof (cases p)
  case None
  with assms have "is_scalar_tag t" by simp
  then consider "t = BOOL" | "is_number_tag t" | "is_string_tag t"
    by (auto simp: is_scalar_tag_def)
  then show ?thesis
  proof cases
    case 1
    with None show ?thesis by (simp add: deserializeValue_BOOL isNull_def)
  next
    case 2
    then have "serializeValue (TBase t None) = Inr JNull"
      by (auto simp: is_number_tag_def)
    with 2 None show ?thesis by (simp add: deserializeValue_number isNull_def)
  next
    case 3
    then have "serializeValue (TBase t None) = Inr JNull"
      by (auto simp: is_string_tag_def)
    with 3 None show ?thesis by (simp add: deserializeValue_string isNull_def)
  qed
next
  case (Some q)
  show ?thesis
  proof (cases q)
    case (PBool b)
    with Some assms have "t = BOOL" by simp
    with Some PBool show ?thesis by (simp add: deserializeValue_BOOL isNull_def)
  next
    case (PNum n)
    with Some assms have t: "is_number_tag t" and n: "\<not> isNaN n" by simp_all
    from t n have "serializeValue (TBase t (Some (PNum n))) = Inr (JNum n)"
      by (auto simp: is_number_tag_def)
    with t Some PNum show ?thesis by (simp add: deserializeValue_number isNull_def)
  next
    case (PStr s)
    with Some assms have t: "is_string_tag t" by simp
    then have "serializeValue (TBase t (Some (PStr s))) = Inr (JStr s)"
      by (auto simp: is_string_tag_def)
    with t Some PStr show ?thesis by (simp add: deserializeValue_string isNull_def)
  qed
qed

lemma one_prints_as_1: "ToString_num (Num 1) = ''1''"
  by code_simp

lemma map_key_round_trip:
  assumes "is_map_key keyType k"
  shows "\<exists>j. serializeValue k = Inr j \<and> js_ToString j = key_name k"
    and "deserializeValue keyType (JStr (key_name k)) = Inr k"
    and "key_name k \<noteq> ''__proto__''"
  using assms
  by (induction keyType k rule: is_map_key.induct)
    (simp_all add: one_prints_as_1 deserializeValue_BOOL deserializeValue_string
      is_string_tag_def isNull_def del: ToString_num.simps)

lemma list_round_trip:
  assumes tag: "itemType \<in> set wire_tags"
    and items: "\<forall>x \<in> set items. \<exists>j. serializeValue x = Inr j \<and> deserializeValue itemType j = Inr x"
  shows "\<exists>j. serializeValue (TList itemType items) = Inr j \<and>
              deserializeValue LIST j = Inr (TList itemType items)"
    and "\<exists>j. serializeValue (TSet itemType items) = Inr j \<and>
              deserializeValue SET j = Inr (TSet itemType items)"
proof -
  from wire_tag_inverse [OF tag] obtain s where
    s: "typeString itemType = Inr s" "typeOfString (JStr s) = Inr itemType" by blast
  from mapM_round_trip [OF items] obtain js where
    js: "mapM serializeValue items = Inr js" "mapM (deserializeValue itemType) js = Inr items"
    by blast
  show "\<exists>j. serializeValue (TList itemType items) = Inr j \<and>
              deserializeValue LIST j = Inr (TList itemType items)"
    using s js by (simp add: deserializeValue_LIST_array)
  show "\<exists>j. serializeValue (TSet itemType items) = Inr j \<and>
              deserializeValue SET j = Inr (TSet itemType items)"
    using s js by (simp add: deserializeValue_SET_array)
qed

lemma map_round_trip:
  assumes ktag: "keyType \<in> set wire_tags" and tag: "itemType \<in> set wire_tags"
    and keys: "\<forall>e \<in> set items. is_map_key keyType (key e)"
    and vals: "\<forall>e \<in> set items. \<exists>j. serializeValue (val e) = Inr j \<and>
                                       deserializeValue itemType j = Inr (val e)"
    and order: "property_order (map (\<lambda>e. key_name (key e)) items)"
  shows "\<exists>j. serializeValue (TMap keyType itemType items) = Inr j \<and>
              deserializeValue MAP j = Inr (TMap keyType itemType items)"
proof -
  let ?kf = "\<lambda>e. key_name (key e)"
  let ?vf = "\<lambda>e. projr (serializeValue (val e))"
  let ?step = "\<lambda>data2 item.
               case serializeValue (key item) of
                 Inl e \<Rightarrow> Inl e
               | Inr k \<Rightarrow>
                   (case serializeValue (val item) of
                      Inl e \<Rightarrow> Inl e
                    | Inr v \<Rightarrow> Inr (set_property (js_ToString k) v data2))"
  from wire_tag_inverse [OF ktag] obtain ks where
    ks: "typeString keyType = Inr ks" "typeOfString (JStr ks) = Inr keyType" by blast
  from wire_tag_inverse [OF tag] obtain s where
    s: "typeString itemType = Inr s" "typeOfString (JStr s) = Inr itemType" by blast
  have val_des: "deserializeValue itemType (?vf e) = Inr (val e)" if "e \<in> set items" for e
    using vals that by auto
  have "foldM ?step [] items = Inr ([] @ map (\<lambda>e. (?kf e, ?vf e)) items)"
  proof (rule foldM_builds_object)
    show "?step acc e = Inr (set_property (?kf e) (?vf e) acc)" if "e \<in> set items" for acc e
    proof -
      from vals that obtain j where "serializeValue (val e) = Inr j" by auto
      moreover from keys that map_key_round_trip(1) [of keyType "key e"] obtain jk where
        "serializeValue (key e) = Inr jk" "js_ToString jk = ?kf e" by auto
      ultimately show ?thesis by simp
    qed
    show "property_order (map fst [] @ map ?kf items)" using order by simp
    show "''__proto__'' \<notin> set (map ?kf items)"
    proof
      assume "''__proto__'' \<in> set (map ?kf items)"
      then obtain e where "e \<in> set items" "?kf e = ''__proto__''" by auto
      with keys map_key_round_trip(3) [of keyType "key e"] show False by auto
    qed
  qed
  then have ser: "serializeValue (TMap keyType itemType items)
      = Inr (JArr [JStr ks, JStr s, JNum (Num (of_nat (length items))),
                   JObj (map (\<lambda>e. (?kf e, ?vf e)) items)])"
    using ks s by simp
  let ?entry = "\<lambda>(k, x).
                  case deserializeValue keyType (JStr k) of
                    Inl e \<Rightarrow> Inl e
                  | Inr k' \<Rightarrow>
                      (case deserializeValue itemType x of
                         Inl e \<Rightarrow> Inl e
                       | Inr x' \<Rightarrow> Inr (TMapEntry k' x'))"
  have "mapM (?entry \<circ> (\<lambda>e. (?kf e, ?vf e))) items = Inr (map (\<lambda>e. e) items)"
  proof (rule mapM_pointwise)
    fix e
    assume e: "e \<in> set items"
    with keys have "deserializeValue keyType (JStr (?kf e)) = Inr (key e)"
      by (simp add: map_key_round_trip(2))
    then show "(?entry \<circ> (\<lambda>e. (?kf e, ?vf e))) e = Inr e"
      using val_des [OF e] by simp
  qed
  then have des_entries: "mapM ?entry (map (\<lambda>e. (?kf e, ?vf e)) items) = Inr items"
    by (simp add: mapM_map)
  have "deserializeValue MAP (JArr [JStr ks, JStr s, JNum (Num (of_nat (length items))),
                   JObj (map (\<lambda>e. (?kf e, ?vf e)) items)]) = Inr (TMap keyType itemType items)"
    using ks s des_entries by (simp add: deserializeValue_MAP_array)
  with ser show ?thesis by simp
qed

lemma foldM_map: "foldM f acc (map h xs) = foldM (\<lambda>a x. f a (h x)) acc xs"
  by (induction xs arbitrary: acc) (simp_all cong: sum.case_cong)

lemma proto_not_canonical: "\<not> canonical_id ''__proto__''"
  unfolding canonical_id_def by code_simp

lemma set_property_first: "k \<noteq> ''__proto__'' \<Longrightarrow> set_property k v [] = [(k, v)]"
  by (simp add: set_property_def obj_set_def)

lemma struct_round_trip:
  assumes order: "property_order (map fst fields)"
    and ids: "\<forall>p \<in> set fields. canonical_id (fst p)"
    and tags: "\<forall>p \<in> set fields. fieldType (snd p) \<in> set wire_tags"
    and vals: "\<forall>p \<in> set fields. \<exists>j. serializeValue (fvalue (snd p)) = Inr j \<and>
                 deserializeValue (fieldType (snd p)) j = Inr (fvalue (snd p))"
  shows "\<exists>j. serializeValue (TStruct fields) = Inr j \<and>
              deserializeValue STRUCT j = Inr (TStruct fields)"
proof -
  let ?ts = "\<lambda>p. projr (typeString (fieldType (snd p)))"
  let ?jv = "\<lambda>p. projr (serializeValue (fvalue (snd p)))"
  let ?wire = "\<lambda>p. (fst p, JObj [(?ts p, ?jv p)])"
  let ?put = "\<lambda>data (id', field).
               case typeString (fieldType field) of
                 Inl e \<Rightarrow> Inl e
               | Inr ts \<Rightarrow>
                   (case serializeValue (fvalue field) of
                      Inl e \<Rightarrow> Inl e
                    | Inr v \<Rightarrow> Inr (set_property id' (JObj (set_property ts v [])) data))"
  let ?inner = "\<lambda>id' fields (type, x).
                   case typeOfString (JStr type) of
                     Inl e \<Rightarrow> Inl e
                   | Inr fieldType' \<Rightarrow>
                       (case deserializeValue fieldType' x of
                          Inl e \<Rightarrow> Inl e
                        | Inr v \<Rightarrow>
                            Inr (set_property (ToString_num (parseInt id'))
                                   (TField fieldType' v) fields))"
  let ?get = "\<lambda>fields (id', inner). foldM (?inner id') fields (for_in inner)"
  have no_proto: "''__proto__'' \<notin> set (map fst fields)"
  proof
    assume "''__proto__'' \<in> set (map fst fields)"
    then obtain p where "p \<in> set fields" "fst p = ''__proto__''" by auto
    with ids proto_not_canonical show False by auto
  qed
  have tag: "typeString (fieldType (snd p)) = Inr (?ts p)"
    and tag_back: "typeOfString (JStr (?ts p)) = Inr (fieldType (snd p))"
    and tag_name: "?ts p \<noteq> ''__proto__''" if "p \<in> set fields" for p
  proof -
    from tags that have "fieldType (snd p) \<in> set wire_tags" by simp
    from wire_tag_inverse [OF this] obtain s where
      s: "typeString (fieldType (snd p)) = Inr s"
        "typeOfString (JStr s) = Inr (fieldType (snd p))" "s \<noteq> ''__proto__''"
      by blast
    then have "?ts p = s" by simp
    with s show "typeString (fieldType (snd p)) = Inr (?ts p)"
      and "typeOfString (JStr (?ts p)) = Inr (fieldType (snd p))"
      and "?ts p \<noteq> ''__proto__''"
      by simp_all
  qed
  have val_des: "deserializeValue (fieldType (snd p)) (?jv p) = Inr (fvalue (snd p))"
    if "p \<in> set fields" for p
    using vals that by auto
  have "foldM ?put [] fields = Inr ([] @ map (\<lambda>p. (fst p, JObj [(?ts p, ?jv p)])) fields)"
  proof (rule foldM_builds_object)
    show "?put acc p = Inr (set_property (fst p) (JObj [(?ts p, ?jv p)]) acc)"
      if "p \<in> set fields" for acc p
    proof -
      from vals that obtain j where j: "serializeValue (fvalue (snd p)) = Inr j" by auto
      from wire_tag_inverse [of "fieldType (snd p)"] tags that obtain s where
        s: "typeString (fieldType (snd p)) = Inr s" "s \<noteq> ''__proto__''" by blast
      from j s show ?thesis
        by (cases p) (simp add: set_property_first)
    qed
    show "property_order (map fst [] @ map fst fields)" using order by simp
    show "''__proto__'' \<notin> set (map fst fields)" by (rule no_proto)
  qed
  then have ser: "serializeValue (TStruct fields) = Inr (JObj (map ?wire fields))"
    by simp
  have "foldM (\<lambda>a p. ?get a (?wire p)) [] fields
      = Inr ([] @ map (\<lambda>p. (fst p, snd p)) fields)"
  proof (rule foldM_builds_object)
    show "?get acc (?wire p) = Inr (set_property (fst p) (snd p) acc)"
      if "p \<in> set fields" for acc p
    proof -
      from ids that have "ToString_num (parseInt (fst p)) = fst p"
        by (simp add: canonical_id_def)
      moreover have "TField (fieldType (snd p)) (fvalue (snd p)) = snd p" by simp
      ultimately show ?thesis
        using tag_back [OF that] val_des [OF that] by simp
    qed
    show "property_order (map fst [] @ map fst fields)" using order by simp
    show "''__proto__'' \<notin> set (map fst fields)" by (rule no_proto)
  qed
  then have "foldM ?get [] (map ?wire fields) = Inr fields"
    by (simp add: foldM_map)
  then have "deserializeValue STRUCT (JObj (map ?wire fields)) = Inr (TStruct fields)"
    by (simp add: deserializeValue_STRUCT_object)
  with ser show ?thesis by simp
qed

lemma entry_val_in_set: "val e \<in> set_TMapEntry e"
  by (cases e) simp

lemma field_value_in_set: "fvalue f \<in> set_TField f"
  by (cases f) simp

text \<open>
  Claim C1, amended. Serializing a well-formed tree succeeds, and deserializing the
  result with the tree's own type tag gives the tree back. The counterexample shows
  two trees that do not come back: a map whose string keys are not listed in property
  order comes back in property order, and a list that declares the item tag \<open>i32\<close> and
  holds an \<open>i64\<close> scalar comes back holding an \<open>i32\<close> scalar.
\<close>

theorem C1_round_trip:
  assumes "well_formed v"
  shows "\<exists>t j. get_valueType v = Inr t \<and> serializeValue v = Inr j \<and>
               deserializeValue t j = Inr v"
  using assms
proof (induction v)
  case Absent
  then show ?case by simp
next
  case (TBase t p)
  from scalar_round_trip [OF TBase] show ?case by simp
next
  case (TList itemType items)
  then have "\<forall>x \<in> set items. \<exists>j. serializeValue x = Inr j \<and> deserializeValue itemType j = Inr x"
    by fastforce
  with TList.prems list_round_trip(1) [of itemType items] show ?case by simp
next
  case (TMap keyType itemType items)
  have "\<exists>j. serializeValue (val e) = Inr j \<and> deserializeValue itemType j = Inr (val e)"
    if "e \<in> set items" for e
  proof -
    from TMap.prems that have "well_formed (val e)" "get_valueType (val e) = Inr itemType"
      by simp_all
    with TMap.IH [OF that entry_val_in_set] show ?thesis by auto
  qed
  with TMap.prems map_round_trip [of keyType itemType items] show ?case by simp
next
  case (TSet itemType items)
  then have "\<forall>x \<in> set items. \<exists>j. serializeValue x = Inr j \<and> deserializeValue itemType j = Inr x"
    by fastforce
  with TSet.prems list_round_trip(2) [of itemType items] show ?case by simp
next
  case (TStruct fields)
  have "\<exists>j. serializeValue (fvalue (snd p)) = Inr j \<and>
            deserializeValue (fieldType (snd p)) j = Inr (fvalue (snd p))"
    if "p \<in> set fields" for p
  proof -
    from TStruct.prems that have "well_formed (fvalue (snd p))"
      "get_valueType (fvalue (snd p)) = Inr (fieldType (snd p))"
      by simp_all
    moreover have "snd p \<in> Basic_BNFs.snds p" by (cases p) simp
    ultimately show ?thesis
      using TStruct.IH [OF that _ field_value_in_set, of "snd p"] by auto
  qed
  with TStruct.prems struct_round_trip [of fields] show ?case by simp
qed

theorem C1_round_trip_witness:
  "well_formed
     (TStruct
       [(''1'', TField I32 (TBase I32 (Some (PNum (Num 7))))),
        (''2'', TField MAP (TMap STRING LIST
           [TMapEntry (TBase STRING (Some (PStr ''a'')))
              (TList BOOL [TBase BOOL (Some (PBool True)), TBase BOOL None])])),
        (''3'', TField MAP (TMap I32 I32 [])),
        (''4'', TField MAP (TMap BOOL STRING
           [TMapEntry (TBase BOOL (Some (PBool True))) (TBase STRING (Some (PStr ''x'')))]))]) \<and>
   serializeValue
     (TStruct
       [(''1'', TField I32 (TBase I32 (Some (PNum (Num 7))))),
        (''2'', TField MAP (TMap STRING LIST
           [TMapEntry (TBase STRING (Some (PStr ''a'')))
              (TList BOOL [TBase BOOL (Some (PBool True)), TBase BOOL None])])),
        (''3'', TField MAP (TMap I32 I32 [])),
        (''4'', TField MAP (TMap BOOL STRING
           [TMapEntry (TBase BOOL (Some (PBool True))) (TBase STRING (Some (PStr ''x'')))]))])
   = Inr (JObj
       [(''1'', JObj [(''i32'', JNum (Num 7))]),
        (''2'', JObj [(''map'', JArr [JStr ''str'', JStr ''lst'', JNum (Num 1),
           JObj [(''a'', JArr [JStr ''tf'', JNum (Num 2), JNum (Num 1), JNull])]])]),
        (''3'', JObj [(''map'', JArr [JStr ''i32'', JStr ''i32'', JNum (Num 0), JObj []])]),
        (''4'', JObj [(''map'', JArr [JStr ''tf'', JStr ''str'', JNum (Num 1),
           JObj [(''1'', JStr ''x'')]])])]) \<and>
   deserializeValue STRUCT
     (JObj
       [(''1'', JObj [(''i32'', JNum (Num 7))]),
        (''2'', JObj [(''map'', JArr [JStr ''str'', JStr ''lst'', JNum (Num 1),
           JObj [(''a'', JArr [JStr ''tf'', JNum (Num 2), JNum (Num 1), JNull])]])]),
        (''3'', JObj [(''map'', JArr [JStr ''i32'', JStr ''i32'', JNum (Num 0), JObj []])]),
        (''4'', JObj [(''map'', JArr [JStr ''tf'', JStr ''str'', JNum (Num 1),
           JObj [(''1'', JStr ''x'')]])])])
   = Inr (TStruct
       [(''1'', TField I32 (TBase I32 (Some (PNum (Num 7))))),
        (''2'', TField MAP (TMap STRING LIST
           [TMapEntry (TBase STRING (Some (PStr ''a'')))
              (TList BOOL [TBase BOOL (Some (PBool True)), TBase BOOL None])])),
        (''3'', TField MAP (TMap I32 I32 [])),
        (''4'', TField MAP (TMap BOOL STRING
           [TMapEntry (TBase BOOL (Some (PBool True))) (TBase STRING (Some (PStr ''x'')))]))])"
proof -
  let ?v = "TStruct
       [(''1'', TField I32 (TBase I32 (Some (PNum (Num 7))))),
        (''2'', TField MAP (TMap STRING LIST
           [TMapEntry (TBase STRING (Some (PStr ''a'')))
              (TList BOOL [TBase BOOL (Some (PBool True)), TBase BOOL None])])),
        (''3'', TField MAP (TMap I32 I32 [])),
        (''4'', TField MAP (TMap BOOL STRING
           [TMapEntry (TBase BOOL (Some (PBool True))) (TBase STRING (Some (PStr ''x'')))]))]"
  let ?j = "JObj
       [(''1'', JObj [(''i32'', JNum (Num 7))]),
        (''2'', JObj [(''map'', JArr [JStr ''str'', JStr ''lst'', JNum (Num 1),
           JObj [(''a'', JArr [JStr ''tf'', JNum (Num 2), JNum (Num 1), JNull])]])]),
        (''3'', JObj [(''map'', JArr [JStr ''i32'', JStr ''i32'', JNum (Num 0), JObj []])]),
        (''4'', JObj [(''map'', JArr [JStr ''tf'', JStr ''str'', JNum (Num 1),
           JObj [(''1'', JStr ''x'')]])])]"
  have wf: "well_formed ?v" by code_simp
  have ser: "serializeValue ?v = Inr ?j" by code_simp
  from C1_round_trip [OF wf] obtain t j where
    "get_valueType ?v = Inr t" "serializeValue ?v = Inr j" "deserializeValue t j = Inr ?v"
    by blast
  with ser have "deserializeValue STRUCT ?j = Inr ?v" by simp
  with wf ser show ?thesis by simp
qed

theorem C1_round_trip_counterexample:
  "serializeValue
     (TMap STRING I32
       [TMapEntry (TBase STRING (Some (PStr ''b''))) (TBase I32 (Some (PNum (Num 1)))),
        TMapEntry (TBase STRING (Some (PStr ''1''))) (TBase I32 (Some (PNum (Num 2))))])
   = Inr (JArr [JStr ''str'', JStr ''i32'', JNum (Num 2),
                JObj [(''1'', JNum (Num 2)), (''b'', JNum (Num 1))]]) \<and>
   deserializeValue MAP
     (JArr [JStr ''str'', JStr ''i32'', JNum (Num 2),
            JObj [(''1'', JNum (Num 2)), (''b'', JNum (Num 1))]])
   = Inr (TMap STRING I32
       [TMapEntry (TBase STRING (Some (PStr ''1''))) (TBase I32 (Some (PNum (Num 2)))),
        TMapEntry (TBase STRING (Some (PStr ''b''))) (TBase I32 (Some (PNum (Num 1))))]) \<and>
   serializeValue (TList I32 [TBase I64 (Some (PNum (Num 5)))])
   = Inr (JArr [JStr ''i32'', JNum (Num 1), JNum (Num 5)]) \<and>
   deserializeValue LIST (JArr [JStr ''i32'', JNum (Num 1), JNum (Num 5)])
   = Inr (TList I32 [TBase I32 (Some (PNum (Num 5)))])"
  by code_simp

subsection \<open>Array indices are canonical field ids\<close>

lemma digit_cases:
  assumes "is_digit c"
  obtains "c = CHR ''0''" | "c = CHR ''1''" | "c = CHR ''2''" | "c = CHR ''3''" | "c = CHR ''4''"
    | "c = CHR ''5''" | "c = CHR ''6''" | "c = CHR ''7''" | "c = CHR ''8''" | "c = CHR ''9''"
  using assms unfolding is_digit_def by auto

lemma digit_is_radix_digit: "is_digit c \<Longrightarrow> is_radix_digit 10 c"
  by (erule digit_cases) (simp_all add: is_radix_digit_def hex_val_def hex_digits_def)

lemma digit_char_val: "is_digit c \<Longrightarrow> digit_char (digit_val c) = c \<and> digit_val c < 10"
  by (erule digit_cases) (simp_all add: digit_char_def digit_val_def hex_val_def hex_digits_def)

lemma digit_val_zero: "is_digit c \<Longrightarrow> digit_val c = 0 \<Longrightarrow> c = CHR ''0''"
  by (erule digit_cases) (simp_all add: digit_val_def hex_val_def hex_digits_def)

lemma digit_not_space: "is_digit c \<Longrightarrow> \<not> is_space c \<and> c \<noteq> CHR ''-'' \<and> c \<noteq> CHR ''+''"
  by (erule digit_cases) (simp_all add: is_space_def)

lemma digit_not_x: "is_digit c \<Longrightarrow> c \<notin> set ''xX''"
  by (erule digit_cases) simp_all

lemma radix_val_snoc: "radix_val r (s @ [c]) = r * radix_val r s + digit_val c"
  by (simp add: radix_val_def)

lemma foldl_digits_ge: "a \<le> foldl (\<lambda>a c. 10 * a + digit_val c) a s"
proof (induction s arbitrary: a)
  case Nil
  show ?case by simp
next
  case (Cons c s)
  have "a \<le> 10 * a + digit_val c" by simp
  also have "\<dots> \<le> foldl (\<lambda>a c. 10 * a + digit_val c) (10 * a + digit_val c) s"
    by (rule Cons.IH)
  finally show ?case by simp
qed

lemma radix_val_positive:
  assumes "s \<noteq> []" and "is_digit (hd s)" and "hd s \<noteq> CHR ''0''"
  shows "0 < radix_val 10 s"
proof -
  from assms(1) obtain c cs where s: "s = c # cs" by (cases s) auto
  with assms have "0 < digit_val c" using digit_val_zero [of c] by auto
  also have "digit_val c \<le> foldl (\<lambda>a c. 10 * a + digit_val c) (digit_val c) cs"
    by (rule foldl_digits_ge)
  finally show ?thesis by (simp add: s radix_val_def)
qed

lemma show_nat_digit: "d < 10 \<Longrightarrow> show_nat d = [digit_char d]"
  by (subst show_nat.simps) simp

lemma show_nat_step: "0 < m \<Longrightarrow> d < 10 \<Longrightarrow> show_nat (10 * m + d) = show_nat m @ [digit_char d]"
  by (subst show_nat.simps) simp

lemma show_nat_radix_val:
  "s \<noteq> [] \<Longrightarrow> list_all is_digit s \<Longrightarrow> s = ''0'' \<or> hd s \<noteq> CHR ''0'' \<Longrightarrow>
   show_nat (radix_val 10 s) = s"
proof (induction s rule: rev_induct)
  case Nil
  then show ?case by simp
next
  case (snoc c s)
  from snoc.prems have c: "is_digit c" by simp
  show ?case
  proof (cases "s = []")
    case True
    with c show ?thesis
      by (simp add: radix_val_def show_nat_digit digit_char_val)
  next
    case False
    with snoc.prems have digits: "list_all is_digit s" and lead: "hd s \<noteq> CHR ''0''"
      by (auto simp: hd_append)
    from False digits have "is_digit (hd s)" by (cases s) auto
    with False lead have pos: "0 < radix_val 10 s" by (simp add: radix_val_positive)
    from False digits lead have "show_nat (radix_val 10 s) = s" by (simp add: snoc.IH)
    with pos c show ?thesis
      by (simp add: radix_val_snoc show_nat_step digit_char_val)
  qed
qed

lemma to_double_of_nat: "n \<le> 2 ^ 53 \<Longrightarrow> to_double (of_nat n) = Num (of_nat n)"
proof -
  assume "n \<le> 2 ^ 53"
  then have "(of_nat n :: rat) \<le> of_nat (2 ^ 53)" unfolding of_nat_le_iff .
  then have "\<bar>of_nat n :: rat\<bar> \<le> 2 ^ 53" by simp
  then show ?thesis by (simp add: to_double_def)
qed

lemma parseInt_digits:
  assumes "s \<noteq> []" and "list_all is_digit s"
  shows "parseInt s = to_double (of_nat (radix_val 10 s))"
proof -
  from assms obtain c cs where s: "s = c # cs" and c: "is_digit c" and cs: "list_all is_digit cs"
    by (cases s) auto
  have hex: "(2 \<le> length s \<and> hd s = CHR ''0'' \<and> s ! 1 \<in> set ''xX'') = False"
  proof (cases cs)
    case Nil
    with s show ?thesis by simp
  next
    case (Cons d ds)
    with cs have "is_digit d" by simp
    then have "d \<notin> set ''xX''" by (rule digit_not_x)
    with s Cons show ?thesis by simp
  qed
  have all: "takeWhile (is_radix_digit 10) s = s"
    using assms(2) by (simp add: list_all_iff digit_is_radix_digit)
  have blank: "dropWhile is_space s = s"
    using s c digit_not_space [of c] by simp
  have neg: "(s \<noteq> [] \<and> hd s = CHR ''-'') = False"
    and sign: "(s \<noteq> [] \<and> (hd s = CHR ''-'' \<or> hd s = CHR ''+'')) = False"
    using s c digit_not_space [of c] by simp_all
  have unsigned: "(if s \<noteq> [] \<and> (hd s = CHR ''-'' \<or> hd s = CHR ''+'') then tl s else s) = s"
    using sign by auto
  have "parseInt s = (if s = [] then NaN else to_double (if s \<noteq> [] \<and> hd s = CHR ''-''
          then - of_nat (radix_val 10 s) else of_nat (radix_val 10 s)))"
    by (simp only: parseInt_def Let_def blank unsigned hex if_False all)
  with assms(1) neg show ?thesis by simp
qed

lemma ToString_num_of_nat: "n < 2 ^ 53 \<Longrightarrow> ToString_num (Num (of_nat n)) = show_nat n"
proof (cases "n = 0")
  case True
  then show ?thesis by (simp add: show_nat_digit digit_char_def)
next
  case False
  assume "n < 2 ^ 53"
  then have "(of_nat n :: rat) < of_nat (2 ^ 53)" unfolding of_nat_less_iff .
  then have "(of_nat n :: rat) < 2 ^ 53" by simp
  with False show ?thesis by (simp add: pos_num_string_def)
qed

text \<open>Every array index, the usual form of a field id, is a canonical id.\<close>

lemma index_is_canonical: "index_of k = Some n \<Longrightarrow> canonical_id k"
proof -
  assume "index_of k = Some n"
  then have k: "k \<noteq> []" "list_all is_digit k" "k = ''0'' \<or> hd k \<noteq> CHR ''0''"
    and n: "n = radix_val 10 k" "int n < 4294967295"
    by (auto simp: index_of_def split: if_splits)
  from n have small: "n < 2 ^ 53" "n \<le> 2 ^ 53" by simp_all
  from small(2) have "to_double (of_nat n) = Num (of_nat n)" by (rule to_double_of_nat)
  moreover from small(1) have "ToString_num (Num (of_nat n)) = show_nat n"
    by (rule ToString_num_of_nat)
  ultimately show ?thesis
    using k n by (simp add: canonical_id_def parseInt_digits show_nat_radix_val)
qed

section \<open>Decoding arrays and frames\<close>

text \<open>
  On an array the list and set decoders behave as their guards intend: fewer than two
  elements are refused, and with a numeric count the result is a size mismatch exactly
  when the count differs from the number of decoded items.
\<close>

lemma short_array_length: "length xs < 2 \<Longrightarrow> js_lt (js_get (JArr xs) ''length'') (Num 2)"
proof -
  assume "length xs < 2"
  then have "(of_nat (length xs) :: rat) < of_nat 2" unfolding of_nat_less_iff .
  then show ?thesis by (simp add: js_lt_def)
qed

theorem list_decode_on_arrays:
  "(length xs < 2 \<longrightarrow>
      deserializeValue LIST (JArr xs) = Inl (TProtocolException INVALID_DATA ''list expected'') \<and>
      deserializeValue SET (JArr xs) = Inl (TProtocolException INVALID_DATA ''set expected'')) \<and>
   (xs = t # JNum (Num n) # data \<and> typeOfString t = Inr itemType \<and>
    mapM (deserializeValue itemType) data = Inr items \<longrightarrow>
      deserializeValue LIST (JArr xs) =
        (if n = of_nat (length items) then Inr (TList itemType items)
         else Inl (TProtocolException INVALID_DATA ''list size mismatch'')) \<and>
      deserializeValue SET (JArr xs) =
        (if n = of_nat (length items) then Inr (TSet itemType items)
         else Inl (TProtocolException INVALID_DATA ''set size mismatch'')))"
proof (intro conjI impI)
  assume short: "length xs < 2"
  show "deserializeValue LIST (JArr xs) = Inl (TProtocolException INVALID_DATA ''list expected'')"
    by (subst deserializeValue.simps) (simp add: short_array_length [OF short] del: js_get.simps)
  show "deserializeValue SET (JArr xs) = Inl (TProtocolException INVALID_DATA ''set expected'')"
    by (subst deserializeValue.simps) (simp add: short_array_length [OF short] del: js_get.simps)
next
  assume "xs = t # JNum (Num n) # data \<and> typeOfString t = Inr itemType \<and>
    mapM (deserializeValue itemType) data = Inr items"
  then show "deserializeValue LIST (JArr xs) =
        (if n = of_nat (length items) then Inr (TList itemType items)
         else Inl (TProtocolException INVALID_DATA ''list size mismatch''))"
    and "deserializeValue SET (JArr xs) =
        (if n = of_nat (length items) then Inr (TSet itemType items)
         else Inl (TProtocolException INVALID_DATA ''set size mismatch''))"
    by (simp_all add: deserializeValue_LIST_array deserializeValue_SET_array)
qed

theorem list_decode_on_arrays_witness:
  "deserializeValue LIST (JArr [JStr ''i32'']) = Inl (TProtocolException INVALID_DATA ''list expected'') \<and>
   deserializeValue LIST (JArr [JStr ''i32'', JNum (Num 3), JNum (Num 1), JNum (Num 2)])
     = Inl (TProtocolException INVALID_DATA ''list size mismatch'') \<and>
   deserializeValue LIST (JArr [JStr ''i32'', JNum (Num 2), JNum (Num 1), JNum (Num 2)])
     = Inr (TList I32 [TBase I32 (Some (PNum (Num 1))), TBase I32 (Some (PNum (Num 2)))])"
proof -
  let ?items = "[TBase I32 (Some (PNum (Num 1))), TBase I32 (Some (PNum (Num 2)))]"
  have tag: "typeOfString (JStr ''i32'') = Inr I32" by (simp add: typeOfString_def)
  have items: "mapM (deserializeValue I32) [JNum (Num 1), JNum (Num 2)] = Inr ?items"
    by (simp add: deserializeValue_number is_number_tag_def isNull_def)
  from list_decode_on_arrays [of "[JStr ''i32'']"]
  have "deserializeValue LIST (JArr [JStr ''i32''])
      = Inl (TProtocolException INVALID_DATA ''list expected'')" by simp
  moreover from list_decode_on_arrays
    [of "[JStr ''i32'', JNum (Num 3), JNum (Num 1), JNum (Num 2)]" "JStr ''i32''" 3
       "[JNum (Num 1), JNum (Num 2)]" I32 ?items] tag items
  have "deserializeValue LIST (JArr [JStr ''i32'', JNum (Num 3), JNum (Num 1), JNum (Num 2)])
      = Inl (TProtocolException INVALID_DATA ''list size mismatch'')" by simp
  moreover from list_decode_on_arrays
    [of "[JStr ''i32'', JNum (Num 2), JNum (Num 1), JNum (Num 2)]" "JStr ''i32''" 2
       "[JNum (Num 1), JNum (Num 2)]" I32 ?items] tag items
  have "deserializeValue LIST (JArr [JStr ''i32'', JNum (Num 2), JNum (Num 1), JNum (Num 2)])
      = Inr (TList I32 ?items)" by simp
  ultimately show ?thesis by simp
qed

text \<open>
  On an array \<open>readMessage\<close> behaves as its guards intend: any length but 5 is an
  illegal data format, a numeric version other than 1 is a bad version, and with
  version 1 the four remaining slots become the name, the message type, the sequence
  id and the payload decoded as a struct.
\<close>

lemma frame_slots:
  "js_get (JArr [a, b, c, d, e]) ''0'' = a" "js_get (JArr [a, b, c, d, e]) ''1'' = b"
  "js_get (JArr [a, b, c, d, e]) ''2'' = c" "js_get (JArr [a, b, c, d, e]) ''3'' = d"
  "js_get (JArr [a, b, c, d, e]) ''4'' = e"
proof -
  have "index_of ''0'' = Some 0" "index_of ''1'' = Some 1" "index_of ''2'' = Some 2"
    "index_of ''3'' = Some 3" "index_of ''4'' = Some 4"
    by code_simp+
  then show "js_get (JArr [a, b, c, d, e]) ''0'' = a" "js_get (JArr [a, b, c, d, e]) ''1'' = b"
    "js_get (JArr [a, b, c, d, e]) ''2'' = c" "js_get (JArr [a, b, c, d, e]) ''3'' = d"
    "js_get (JArr [a, b, c, d, e]) ''4'' = e"
    by simp_all
qed

lemma frame_length: "loose_neq (js_get (JArr xs) ''length'') (Num 5) = (length xs \<noteq> 5)"
proof -
  have "((of_nat (length xs) :: rat) = of_nat 5) = (length xs = 5)" unfolding of_nat_eq_iff ..
  then show ?thesis by simp
qed

theorem readMessage_on_arrays:
  "(length xs \<noteq> 5 \<longrightarrow>
      readMessage (JArr xs) = Inl (TProtocolException INVALID_DATA ''illegal data format'')) \<and>
   (xs = [JNum (Num v), name', messageType', seqid', value] \<longrightarrow>
      readMessage (JArr xs) =
        (if v \<noteq> 1 then Inl (TProtocolException BAD_VERSION ''unsupported version'')
         else case deserializeValue STRUCT value of
                Inl e \<Rightarrow> Inl e
              | Inr s \<Rightarrow> Inr (TMessage name' messageType' seqid' s)))"
proof (intro conjI impI)
  assume "length xs \<noteq> 5"
  then show "readMessage (JArr xs) = Inl (TProtocolException INVALID_DATA ''illegal data format'')"
    by (simp add: readMessage_def frame_length del: js_get.simps)
next
  assume xs: "xs = [JNum (Num v), name', messageType', seqid', value]"
  then have "length xs = 5" by simp
  then have "\<not> loose_neq (js_get (JArr xs) ''length'') (Num 5)" by (simp add: frame_length del: js_get.simps)
  then show "readMessage (JArr xs) =
        (if v \<noteq> 1 then Inl (TProtocolException BAD_VERSION ''unsupported version'')
         else case deserializeValue STRUCT value of
                Inl e \<Rightarrow> Inl e
              | Inr s \<Rightarrow> Inr (TMessage name' messageType' seqid' s))"
    unfolding xs
    by (simp add: readMessage_def falsy_def frame_slots VERSION_def Let_def
        del: js_get.simps cong: sum.case_cong)
qed

theorem readMessage_on_arrays_witness:
  "readMessage (JArr [JNum (Num 2), JStr ''ping'', JNum (Num 1), JNum (Num 42), JObj []])
     = Inl (TProtocolException BAD_VERSION ''unsupported version'') \<and>
   readMessage (JArr [JNum (Num 1), JStr ''ping'', JNum (Num 1), JNum (Num 42)])
     = Inl (TProtocolException INVALID_DATA ''illegal data format'') \<and>
   readMessage (JArr [JNum (Num 1), JStr ''ping'', JNum (Num 1), JNum (Num 42), JObj []])
     = Inr (TMessage (JStr ''ping'') (JNum (Num 1)) (JNum (Num 42)) (TStruct []))"
proof -
  have empty: "deserializeValue STRUCT (JObj []) = Inr (TStruct [])"
    by (simp add: deserializeValue_STRUCT_object)
  from readMessage_on_arrays
    [of "[JNum (Num 2), JStr ''ping'', JNum (Num 1), JNum (Num 42), JObj []]"
       2 "JStr ''ping''" "JNum (Num 1)" "JNum (Num 42)" "JObj []"]
  have "readMessage (JArr [JNum (Num 2), JStr ''ping'', JNum (Num 1), JNum (Num 42), JObj []])
     = Inl (TProtocolException BAD_VERSION ''unsupported version'')" by simp
  moreover from readMessage_on_arrays
    [of "[JNum (Num 1), JStr ''ping'', JNum (Num 1), JNum (Num 42)]"]
  have "readMessage (JArr [JNum (Num 1), JStr ''ping'', JNum (Num 1), JNum (Num 42)])
     = Inl (TProtocolException INVALID_DATA ''illegal data format'')" by simp
  moreover from readMessage_on_arrays
    [of "[JNum (Num 1), JStr ''ping'', JNum (Num 1), JNum (Num 42), JObj []]"
       1 "JStr ''ping''" "JNum (Num 1)" "JNum (Num 42)" "JObj []"] empty
  have "readMessage (JArr [JNum (Num 1), JStr ''ping'', JNum (Num 1), JNum (Num 42), JObj []])
     = Inr (TMessage (JStr ''ping'') (JNum (Num 1)) (JNum (Num 42)) (TStruct []))" by simp
  ultimately show ?thesis by simp
qed

section \<open>Encoding\<close>

text \<open>A numeric scalar whose payload is \<open>NaN\<close> is refused with \<open>INVALID_DATA\<close>.\<close>

theorem NaN_is_refused:
  "is_number_tag t \<longrightarrow>
   serializeValue (TBase t (Some (PNum NaN))) = Inl (TProtocolException INVALID_DATA ''number is NaN'')"
  by (auto simp: is_number_tag_def isNaN_def)

theorem NaN_is_refused_witness:
  "is_number_tag DOUBLE \<and>
   serializeValue (TBase DOUBLE (Some (PNum NaN))) = Inl (TProtocolException INVALID_DATA ''number is NaN'')"
  using NaN_is_refused [of DOUBLE] by (simp add: is_number_tag_def)

text \<open>The wire forms of a boolean, a list, a map and a struct.\<close>

theorem wire_form_examples:
  "serializeValue (TBase BOOL (Some (PBool True))) = Inr (JNum (Num 1)) \<and>
   serializeValue (TBase BOOL (Some (PBool False))) = Inr (JNum (Num 0)) \<and>
   serializeValue (TList I32 [TBase I32 (Some (PNum (Num 1))), TBase I32 (Some (PNum (Num 2))),
                              TBase I32 (Some (PNum (Num 3)))])
     = Inr (JArr [JStr ''i32'', JNum (Num 3), JNum (Num 1), JNum (Num 2), JNum (Num 3)]) \<and>
   serializeValue (TMap STRING I32
       [TMapEntry (TBase STRING (Some (PStr ''a''))) (TBase I32 (Some (PNum (Num 1))))])
     = Inr (JArr [JStr ''str'', JStr ''i32'', JNum (Num 1), JObj [(''a'', JNum (Num 1))]]) \<and>
   serializeValue (TStruct [(''1'', TField I32 (TBase I32 (Some (PNum (Num 7)))))])
     = Inr (JObj [(''1'', JObj [(''i32'', JNum (Num 7))])])"
  by code_simp

end
